theory Spec2Isabelle
  imports Main "HOL-Library.AList"
begin

section \<open>Coordinate identification of \<open>metpy/xarray.py\<close>\<close>

text \<open>
  The development embeds the coordinate-classification part of the accessor module:
  the criteria table \<open>coordinate_criteria\<close>, \<open>check_axis\<close>, the methods
  \<open>_generate_coordinate_map\<close>, \<open>_resolve_axis_conflict\<close>, \<open>_metpy_axis_search\<close>,
  \<open>_axis\<close>, \<open>find_axis_name\<close> of the data-array accessor, and
  \<open>_reassign_quantity_indexer\<close>.

  Attribute values, coordinate names and dimension names are strings. The units
  registry (pint) is not part of the module; it is a parameter of the functions that
  call it.
\<close>

subsection \<open>Strings: Python's \<open>in\<close> and \<open>lower\<close>\<close>

definition starts_with :: "string \<Rightarrow> string \<Rightarrow> bool" where
  "starts_with p s = (take (length p) s = p)"

text \<open>\<open>sub in s\<close> for two strings: \<open>sub\<close> occurs in \<open>s\<close> as a contiguous substring.\<close>

fun str_in :: "string \<Rightarrow> string \<Rightarrow> bool" where
  "str_in sub [] = (sub = [])"
| "str_in sub (c # cs) = (starts_with sub (c # cs) \<or> str_in sub cs)"

text \<open>\<open>str.lower\<close> on ASCII letters; other characters are kept.\<close>

definition uppers :: "char list" where
  "uppers = ''ABCDEFGHIJKLMNOPQRSTUVWXYZ''"

definition lowers :: "char list" where
  "lowers = ''abcdefghijklmnopqrstuvwxyz''"

definition lower_char :: "char \<Rightarrow> char" where
  "lower_char c = (case map_of (zip uppers lowers) c of Some l \<Rightarrow> l | None \<Rightarrow> c)"

definition lower :: "string \<Rightarrow> string" where
  "lower s = map lower_char s"

subsection \<open>Regular expressions and \<open>re.match\<close>\<close>

datatype rx = Eps | Cls "char list" | Seq rx rx | Alt rx rx | Star rx

fun lit :: "string \<Rightarrow> rx" where
  "lit [] = Eps"
| "lit (c # cs) = Seq (Cls [c]) (lit cs)"

definition opt :: "rx \<Rightarrow> rx" where
  "opt r = Alt r Eps"

fun nullable :: "rx \<Rightarrow> bool" where
  "nullable Eps = True"
| "nullable (Cls cs) = False"
| "nullable (Seq r s) = (nullable r \<and> nullable s)"
| "nullable (Alt r s) = (nullable r \<or> nullable s)"
| "nullable (Star r) = True"

text \<open>
  \<open>deriv c r = None\<close> is the empty language; keeping it apart from the syntax keeps the
  derivatives of the patterns below small.
\<close>

fun deriv :: "char \<Rightarrow> rx \<Rightarrow> rx option" where
  "deriv c Eps = None"
| "deriv c (Cls cs) = (if c \<in> set cs then Some Eps else None)"
| "deriv c (Seq r s) =
     (case deriv c r of
        Some r' \<Rightarrow>
          (if nullable r
           then (case deriv c s of Some s' \<Rightarrow> Some (Alt (Seq r' s) s') | None \<Rightarrow> Some (Seq r' s))
           else Some (Seq r' s))
      | None \<Rightarrow> (if nullable r then deriv c s else None))"
| "deriv c (Alt r s) =
     (case deriv c r of
        Some r' \<Rightarrow> (case deriv c s of Some s' \<Rightarrow> Some (Alt r' s') | None \<Rightarrow> Some r')
      | None \<Rightarrow> deriv c s)"
| "deriv c (Star r) = (case deriv c r of Some r' \<Rightarrow> Some (Seq r' (Star r)) | None \<Rightarrow> None)"

text \<open>
  \<open>re.match(pattern, s)\<close> succeeds when some prefix of \<open>s\<close> matches the pattern (the
  match is anchored at the start only).
\<close>

fun re_match :: "rx \<Rightarrow> string \<Rightarrow> bool" where
  "re_match r [] = nullable r"
| "re_match r (c # cs) =
     (nullable r \<or> (case deriv c r of Some r' \<Rightarrow> re_match r' cs | None \<Rightarrow> False))"

definition digits :: "char list" where
  "digits = ''0123456789''"

subsection \<open>Axis names\<close>

text \<open>The CF axis letters: the keys of \<open>coord_lists\<close> and the values of the cache mark.\<close>

datatype cf_axis = T | Z | Y | X

fun cf_str :: "cf_axis \<Rightarrow> string" where
  "cf_str T = ''T''"
| "cf_str Z = ''Z''"
| "cf_str Y = ''Y''"
| "cf_str X = ''X''"

definition readable_to_cf_axes :: "(string \<times> cf_axis) list" where
  "readable_to_cf_axes = [(''time'', T), (''vertical'', Z), (''y'', Y), (''x'', X)]"

fun cf_to_readable_axes :: "cf_axis \<Rightarrow> string" where
  "cf_to_readable_axes T = ''time''"
| "cf_to_readable_axes Z = ''vertical''"
| "cf_to_readable_axes Y = ''y''"
| "cf_to_readable_axes X = ''x''"

text \<open>The axis types \<open>check_axis\<close> is called with.\<close>

datatype axis_type = Time | Vertical | Ay | Lat | Ax | Lon

fun axis_key :: "axis_type \<Rightarrow> string" where
  "axis_key Time = ''time''"
| "axis_key Vertical = ''vertical''"
| "axis_key Ay = ''y''"
| "axis_key Lat = ''lat''"
| "axis_key Ax = ''x''"
| "axis_key Lon = ''lon''"

subsection \<open>The criteria table\<close>

text \<open>
  An entry of the table is a string or a set of strings; \<open>value in entry\<close> is substring
  containment for a string and membership for a set. A missing entry is
  \<open>.get(axis, set())\<close>, the empty set.
\<close>

datatype entry = EStr string | ESet "string list"

fun py_in :: "string \<Rightarrow> entry \<Rightarrow> bool" where
  "py_in v (EStr s) = str_in v s"
| "py_in v (ESet xs) = (v \<in> set xs)"

datatype criterion = Standard_name | CoordinateAxisType | Axis | Positive

fun criterion_key :: "criterion \<Rightarrow> string" where
  "criterion_key Standard_name = ''standard_name''"
| "criterion_key CoordinateAxisType = ''_CoordinateAxisType''"
| "criterion_key Axis = ''axis''"
| "criterion_key Positive = ''positive''"

fun standard_name_criteria :: "axis_type \<Rightarrow> entry" where
  "standard_name_criteria Time = EStr ''time''"
| "standard_name_criteria Vertical =
     ESet [''air_pressure'', ''height'', ''geopotential_height'', ''altitude'',
           ''model_level_number'', ''atmosphere_ln_pressure_coordinate'',
           ''atmosphere_sigma_coordinate'',
           ''atmosphere_hybrid_sigma_pressure_coordinate'',
           ''atmosphere_hybrid_height_coordinate'', ''atmosphere_sleve_coordinate'',
           ''height_above_geopotential_datum'', ''height_above_reference_ellipsoid'',
           ''height_above_mean_sea_level'']"
| "standard_name_criteria Ay = EStr ''projection_y_coordinate''"
| "standard_name_criteria Lat = EStr ''latitude''"
| "standard_name_criteria Ax = EStr ''projection_x_coordinate''"
| "standard_name_criteria Lon = EStr ''longitude''"

fun axis_type_criteria :: "axis_type \<Rightarrow> entry" where
  "axis_type_criteria Time = EStr ''Time''"
| "axis_type_criteria Vertical = ESet [''GeoZ'', ''Height'', ''Pressure'']"
| "axis_type_criteria Ay = EStr ''GeoY''"
| "axis_type_criteria Lat = EStr ''Lat''"
| "axis_type_criteria Ax = EStr ''GeoX''"
| "axis_type_criteria Lon = EStr ''Lon''"

text \<open>The \<open>axis\<close> criterion is the dictionary \<open>readable_to_cf_axes\<close> itself.\<close>

definition axis_criteria :: "axis_type \<Rightarrow> entry" where
  "axis_criteria a =
     (case map_of readable_to_cf_axes (axis_key a) of
        Some cf \<Rightarrow> EStr (cf_str cf)
      | None \<Rightarrow> ESet [])"

fun positive_criteria :: "axis_type \<Rightarrow> entry" where
  "positive_criteria Vertical = ESet [''up'', ''down'']"
| "positive_criteria a = ESet []"

fun attribute_criteria :: "criterion \<Rightarrow> axis_type \<Rightarrow> entry" where
  "attribute_criteria Standard_name a = standard_name_criteria a"
| "attribute_criteria CoordinateAxisType a = axis_type_criteria a"
| "attribute_criteria Axis a = axis_criteria a"
| "attribute_criteria Positive a = positive_criteria a"

datatype units_rule = Dimensionality string | Name "string list"

fun units_criteria :: "axis_type \<Rightarrow> units_rule option" where
  "units_criteria Vertical = Some (Dimensionality ''Pa'')"
| "units_criteria Lat =
     Some (Name [''degree_north'', ''degree_N'', ''degreeN'', ''degrees_north'',
                 ''degrees_N'', ''degreesN''])"
| "units_criteria Lon =
     Some (Name [''degree_east'', ''degree_E'', ''degreeE'', ''degrees_east'',
                 ''degrees_E'', ''degreesE''])"
| "units_criteria a = None"

fun regular_expression :: "axis_type \<Rightarrow> rx" where
  "regular_expression Time = Seq (lit ''time'') (Star (Cls digits))"
| "regular_expression Vertical =
     Seq (Alt (lit ''bottom_top'')
         (Alt (lit ''sigma'')
         (Alt (Seq (lit ''h'') (Seq (opt (lit ''ei'')) (lit ''ght'')))
         (Alt (lit ''altitude'')
         (Alt (lit ''depth'')
         (Alt (lit ''isobaric'')
         (Alt (lit ''pres'') (lit ''isotherm''))))))))
       (Seq (Star (Cls (lowers @ ''_''))) (Star (Cls digits)))"
| "regular_expression Ay = lit ''y''"
| "regular_expression Lat = Seq (opt (lit ''x'')) (Seq (lit ''lat'') (Star (Cls (lowers @ digits))))"
| "regular_expression Ax = lit ''x''"
| "regular_expression Lon = Seq (opt (lit ''x'')) (Seq (lit ''lon'') (Star (Cls (lowers @ digits))))"

subsection \<open>Coordinates and the units registry\<close>

text \<open>
  A coordinate variable as far as the module reads it: its name, its own dimension
  names and its attribute dictionary. \<open>attrs[k] = v\<close> is \<open>AList.update\<close>, \<open>attrs.get(k)\<close>
  is \<open>map_of\<close>.
\<close>

record coordinate =
  name :: string
  dims :: "string list"
  attrs :: "(string \<times> string) list"

definition attrs_get :: "coordinate \<Rightarrow> string \<Rightarrow> string option" where
  "attrs_get var k = map_of (attrs var) k"

text \<open>
  The part of the units registry that \<open>check_axis\<close> calls.
  \<open>get_dimensionality reg u = None\<close> stands for the registry raising
  \<open>UndefinedUnitError\<close> on \<open>u\<close>; the argument is \<open>attrs.get('units')\<close>, which is
  \<open>None\<close> for a coordinate without units.
\<close>

record 'd registry =
  get_dimensionality :: "string option \<Rightarrow> 'd option"

subsection \<open>\<open>check_axis\<close>\<close>

text \<open>The loop over the four attribute criteria: \<open>attrs.get(criterion, 'absent') in entry\<close>.\<close>

definition criterion_matches :: "coordinate \<Rightarrow> axis_type \<Rightarrow> criterion \<Rightarrow> bool" where
  "criterion_matches var a cr =
     py_in (case attrs_get var (criterion_key cr) of Some v \<Rightarrow> v | None \<Rightarrow> ''absent'')
           (attribute_criteria cr a)"

definition attributes_match :: "coordinate \<Rightarrow> axis_type \<Rightarrow> bool" where
  "attributes_match var a =
     list_ex (criterion_matches var a) [Standard_name, CoordinateAxisType, Axis, Positive]"

text \<open>
  The units test inside \<open>try\<close>. The result \<open>None\<close> is \<open>UndefinedUnitError\<close> leaving the
  \<open>try\<close> block; the coordinate's unit is looked up before the reference unit.
\<close>

definition units_test :: "'d registry \<Rightarrow> coordinate \<Rightarrow> axis_type \<Rightarrow> bool option" where
  "units_test reg var a =
     (case units_criteria a of
        None \<Rightarrow> Some False
      | Some (Dimensionality ref) \<Rightarrow>
          (case get_dimensionality reg (attrs_get var ''units'') of
             None \<Rightarrow> None
           | Some d \<Rightarrow>
               (case get_dimensionality reg (Some ref) of
                  None \<Rightarrow> None
                | Some d' \<Rightarrow> Some (d = d')))
      | Some (Name names) \<Rightarrow>
          Some (case attrs_get var ''units'' of None \<Rightarrow> False | Some u \<Rightarrow> u \<in> set names))"

text \<open>\<open>except UndefinedUnitError: pass\<close>: the units criterion does not match.\<close>

definition units_match :: "'d registry \<Rightarrow> coordinate \<Rightarrow> axis_type \<Rightarrow> bool" where
  "units_match reg var a = (case units_test reg var a of Some b \<Rightarrow> b | None \<Rightarrow> False)"

definition name_matches :: "coordinate \<Rightarrow> axis_type \<Rightarrow> bool" where
  "name_matches var a = re_match (regular_expression a) (lower (name var))"

fun check_axis :: "'d registry \<Rightarrow> coordinate \<Rightarrow> axis_type list \<Rightarrow> bool" where
  "check_axis reg var [] = False"
| "check_axis reg var (a # axes) =
     (if attributes_match var a then True
      else if units_match reg var a then True
      else if name_matches var a then True
      else check_axis reg var axes)"

subsection \<open>The data array\<close>

text \<open>
  A data array as far as the accessor reads it: its name (\<open>None\<close> for an unnamed
  array), its dimension names and its coordinates in the order of \<open>coords.values()\<close>.
  A coordinate variable held by the code (in a candidate list, in the coordinate map, as
  a returned value) is its position in this list; the attribute dictionary of a
  coordinate is shared by every such reference, so writing a mark updates the list.
\<close>

record data_array =
  da_name :: "string option"
  da_dims :: "string list"
  coords :: "coordinate list"

datatype error =
    TypeError
  | AttributeError string
  | ValueError
  | IndexError
  | KeyError string
  | RuntimeError string
  | UndefinedUnitError
  | DimensionalityError

text \<open>
  What a call does besides returning or raising: the array after the call, the messages
  passed to \<open>warnings.warn\<close> and the assignments \<open>coord_var.attrs['_metpy_axis'] = axis\<close>
  it executed, in order.
\<close>

record 'a outcome =
  result :: "error + 'a"
  array :: data_array
  warned :: "string list"
  writes :: "(nat \<times> cf_axis) list"

subsection \<open>\<open>check_axis\<close> with the exceptions of the registry\<close>

text \<open>
  The registry call \<open>units.get_dimensionality\<close> may raise any exception, and \<open>check_axis\<close>
  catches \<open>UndefinedUnitError\<close> only. Here the registry is a function that returns the
  dimensionality or the exception it raises, and so does \<open>check_axis\<close>. The expression
  inside \<open>try\<close>: the unit of the coordinate is looked up before the reference unit, and an
  exception of either call leaves the expression.
\<close>

definition units_try ::
  "(string option \<Rightarrow> error + 'd) \<Rightarrow> coordinate \<Rightarrow> axis_type \<Rightarrow> error + bool" where
  "units_try gd var a =
     (case units_criteria a of
        None \<Rightarrow> Inr False
      | Some (Dimensionality ref) \<Rightarrow>
          (case gd (attrs_get var ''units'') of
             Inl e \<Rightarrow> Inl e
           | Inr d \<Rightarrow>
               (case gd (Some ref) of
                  Inl e \<Rightarrow> Inl e
                | Inr d' \<Rightarrow> Inr (d = d')))
      | Some (Name names) \<Rightarrow>
          Inr (case attrs_get var ''units'' of None \<Rightarrow> False | Some u \<Rightarrow> u \<in> set names))"

text \<open>
  \<open>check_axis(var, *axes)\<close>: \<open>except UndefinedUnitError: pass\<close> goes on with the name pattern;
  every other exception leaves the function.
\<close>

fun check_axis_raising::
  "(string option \<Rightarrow> error + 'd) \<Rightarrow> coordinate \<Rightarrow> axis_type list \<Rightarrow> error + bool" where
  "check_axis_raising gd var [] = Inr False"
| "check_axis_raising gd var (a # axes) =
     (if attributes_match var a then Inr True
      else (case units_try gd var a of
              Inl e \<Rightarrow>
                if e = UndefinedUnitError
                then (if name_matches var a then Inr True else check_axis_raising gd var axes)
                else Inl e
            | Inr b \<Rightarrow>
                if b then Inr True
                else if name_matches var a then Inr True
                else check_axis_raising gd var axes))"

text \<open>A registry whose only exception is \<open>UndefinedUnitError\<close>, as such a function.\<close>

definition raising :: "'d registry \<Rightarrow> string option \<Rightarrow> error + 'd" where
  "raising reg u =
     (case get_dimensionality reg u of None \<Rightarrow> Inl UndefinedUnitError | Some d \<Rightarrow> Inr d)"

subsection \<open>\<open>_generate_coordinate_map\<close> and \<open>_resolve_axis_conflict\<close>\<close>

definition cf_axes :: "cf_axis list" where
  "cf_axes = [T, Z, Y, X]"

fun axes_to_check :: "cf_axis \<Rightarrow> axis_type list" where
  "axes_to_check T = [Time]"
| "axes_to_check Z = [Vertical]"
| "axes_to_check Y = [Ay, Lat]"
| "axes_to_check X = [Ax, Lon]"

text \<open>The candidate lists \<open>coord_lists\<close> after the loop over the coordinates.\<close>

definition coord_lists :: "'d registry \<Rightarrow> data_array \<Rightarrow> cf_axis \<Rightarrow> nat list" where
  "coord_lists reg da axis =
     filter (\<lambda>i. check_axis reg (coords da ! i) (axes_to_check axis))
       [0 ..< length (coords da)]"

definition ambiguous_message :: "cf_axis \<Rightarrow> string \<Rightarrow> string" where
  "ambiguous_message axis n =
     ''More than one '' @ cf_to_readable_axes axis @ '' coordinate present ''
       @ ''for variable '' @ [CHR 0x22] @ n @ [CHR 0x22] @ ''.''"

text \<open>
  \<open>_resolve_axis_conflict(axis, coord_lists)\<close> returns the updated \<open>coord_lists\<close> and the
  warnings it emitted. Building the message concatenates strings with
  \<open>self._data_array.name\<close>, which raises \<open>TypeError\<close> when the name is \<open>None\<close>.
\<close>

definition resolve_axis_conflict ::
  "'d registry \<Rightarrow> data_array \<Rightarrow> cf_axis \<Rightarrow> (cf_axis \<Rightarrow> nat list)
     \<Rightarrow> (error + (cf_axis \<Rightarrow> nat list)) \<times> string list" where
  "resolve_axis_conflict reg da axis cl =
     (let projection_coords = filter (\<lambda>i. check_axis reg (coords da ! i) [Ax, Ay]) (cl axis)
      in if (axis = Y \<or> axis = X) \<and> length projection_coords = 1
         then (Inr (cl(axis := projection_coords)), [])
         else
           (let dimension_coords =
                  filter (\<lambda>i. name (coords da ! i) \<in> set (dims (coords da ! i))) (cl axis)
            in if length dimension_coords = 1
               then (Inr (cl(axis := dimension_coords)), [])
               else (case da_name da of
                       None \<Rightarrow> (Inl TypeError, [])
                     | Some n \<Rightarrow> (Inr (cl(axis := [])), [ambiguous_message axis n]))))"

text \<open>The loop \<open>for axis in axis_conflicts\<close>; an exception ends it.\<close>

fun resolve_conflicts ::
  "'d registry \<Rightarrow> data_array \<Rightarrow> cf_axis list \<Rightarrow> (cf_axis \<Rightarrow> nat list)
     \<Rightarrow> (error + (cf_axis \<Rightarrow> nat list)) \<times> string list" where
  "resolve_conflicts reg da [] cl = (Inr cl, [])"
| "resolve_conflicts reg da (axis # rest) cl =
     (case resolve_axis_conflict reg da axis cl of
        (Inl e, ws) \<Rightarrow> (Inl e, ws)
      | (Inr cl', ws) \<Rightarrow>
          (case resolve_conflicts reg da rest cl' of (r, ws') \<Rightarrow> (r, ws @ ws')))"

definition collapse :: "(cf_axis \<Rightarrow> nat list) \<Rightarrow> cf_axis \<Rightarrow> nat option" where
  "collapse cl axis = (case cl axis of [] \<Rightarrow> None | i # _ \<Rightarrow> Some i)"

definition generate_coordinate_map ::
  "'d registry \<Rightarrow> data_array \<Rightarrow> (error + (cf_axis \<Rightarrow> nat option)) \<times> string list" where
  "generate_coordinate_map reg da =
     (let cl = coord_lists reg da;
          axis_conflicts = filter (\<lambda>axis. length (cl axis) > 1) cf_axes
      in case resolve_conflicts reg da axis_conflicts cl of
           (Inl e, ws) \<Rightarrow> (Inl e, ws)
         | (Inr cl', ws) \<Rightarrow> (Inr (collapse cl'), ws))"

subsection \<open>\<open>_metpy_axis_search\<close>\<close>

definition metpy_axis :: "coordinate \<Rightarrow> string option" where
  "metpy_axis var = attrs_get var ''_metpy_axis''"

definition set_metpy_axis :: "cf_axis \<Rightarrow> coordinate \<Rightarrow> coordinate" where
  "set_metpy_axis axis var =
     var\<lparr>attrs := AList.update ''_metpy_axis'' (cf_str axis) (attrs var)\<rparr>"

text \<open>The first position of a list whose element satisfies \<open>P\<close>.\<close>

fun first_index :: "('a \<Rightarrow> bool) \<Rightarrow> 'a list \<Rightarrow> nat option" where
  "first_index P [] = None"
| "first_index P (x # xs) =
     (if P x then Some 0 else map_option Suc (first_index P xs))"

text \<open>\<open>any(coord.attrs.get('_metpy_axis') == axis for coord in coords)\<close>\<close>

definition assigned :: "coordinate list \<Rightarrow> cf_axis \<Rightarrow> bool" where
  "assigned cs axis = list_ex (\<lambda>coord. metpy_axis coord = Some (cf_str axis)) cs"

text \<open>
  The loop \<open>for axis, coord_var in coord_map.items()\<close>: the coordinates after it and the
  assignments made. The test reads the coordinates as they are when the axis is reached.
\<close>

fun assign_parsed ::
  "cf_axis list \<Rightarrow> (cf_axis \<Rightarrow> nat option) \<Rightarrow> coordinate list
     \<Rightarrow> coordinate list \<times> (nat \<times> cf_axis) list" where
  "assign_parsed [] coord_map cs = (cs, [])"
| "assign_parsed (axis # rest) coord_map cs =
     (case coord_map axis of
        None \<Rightarrow> assign_parsed rest coord_map cs
      | Some i \<Rightarrow>
          (if \<not> assigned cs axis
           then (case assign_parsed rest coord_map (cs[i := set_metpy_axis axis (cs ! i)]) of
                   (cs', ws) \<Rightarrow> (cs', (i, axis) # ws))
           else assign_parsed rest coord_map cs))"

definition metpy_axis_search ::
  "'d registry \<Rightarrow> data_array \<Rightarrow> cf_axis \<Rightarrow> nat option outcome" where
  "metpy_axis_search reg da cf =
     (case first_index (\<lambda>coord_var. metpy_axis coord_var = Some (cf_str cf)) (coords da) of
        Some i \<Rightarrow> \<lparr>result = Inr (Some i), array = da, warned = [], writes = []\<rparr>
      | None \<Rightarrow>
          (case generate_coordinate_map reg da of
             (Inl e, ws) \<Rightarrow> \<lparr>result = Inl e, array = da, warned = ws, writes = []\<rparr>
           | (Inr coord_map, ws) \<Rightarrow>
               (case assign_parsed cf_axes coord_map (coords da) of
                  (cs', wr) \<Rightarrow>
                    \<lparr>result = Inr (coord_map cf), array = da\<lparr>coords := cs'\<rparr>,
                     warned = ws, writes = wr\<rparr>)))"

subsection \<open>\<open>_axis\<close> and \<open>find_axis_name\<close>\<close>

text \<open>\<open>_axis(axis)\<close>: the coordinate for a readable axis name.\<close>

definition get_axis :: "'d registry \<Rightarrow> data_array \<Rightarrow> string \<Rightarrow> nat outcome" where
  "get_axis reg da axis =
     (case map_of readable_to_cf_axes axis of
        Some cf \<Rightarrow>
          (let r = metpy_axis_search reg da cf
           in \<lparr>result =
                 (case result r of
                    Inl e \<Rightarrow> Inl e
                  | Inr None \<Rightarrow> Inl (AttributeError (axis @ '' attribute is not available.''))
                  | Inr (Some coord_var) \<Rightarrow> Inr coord_var),
               array = array r, warned = warned r, writes = writes r\<rparr>)
      | None \<Rightarrow>
          \<lparr>result = Inl (AttributeError ([CHR 0x27] @ axis @ [CHR 0x27]
                                          @ '' is not an interpretable axis.'')),
           array = da, warned = [], writes = []\<rparr>)"

text \<open>An axis identifier is an axis number or a string.\<close>

datatype axis_id = Number int | Named string

text \<open>\<open>dims[axis]\<close> on a tuple: a negative index counts from the end.\<close>

definition tuple_get :: "'a list \<Rightarrow> int \<Rightarrow> error + 'a" where
  "tuple_get xs i =
     (if 0 \<le> i \<and> i < int (length xs) then Inr (xs ! nat i)
      else if i < 0 \<and> - int (length xs) \<le> i then Inr (xs ! nat (int (length xs) + i))
      else Inl IndexError)"

definition find_axis_name :: "'d registry \<Rightarrow> data_array \<Rightarrow> axis_id \<Rightarrow> string outcome" where
  "find_axis_name reg da axis =
     (case axis of
        Number n \<Rightarrow>
          \<lparr>result = tuple_get (da_dims da) n, array = da, warned = [], writes = []\<rparr>
      | Named s \<Rightarrow>
          if s \<notin> set (da_dims da) \<and> s \<in> set (map fst readable_to_cf_axes)
          then (let r = get_axis reg da s
                in \<lparr>result = map_sum id (\<lambda>i. name (coords (array r) ! i)) (result r),
                    array = array r, warned = warned r, writes = writes r\<rparr>)
          else if s \<in> set (da_dims da) \<and> s \<in> set (map name (coords da))
          then \<lparr>result = Inr s, array = da, warned = [], writes = []\<rparr>
          else \<lparr>result = Inl ValueError, array = da, warned = [], writes = []\<rparr>)"

subsection \<open>\<open>_reassign_quantity_indexer\<close>\<close>

text \<open>
  The part of the units registry that the indexer calls: \<open>parse_units q s = None\<close> is
  \<open>units(s)\<close> raising \<open>UndefinedUnitError\<close>, and \<open>convert q m u u' = None\<close> is
  \<open>Quantity(m, u).to(u')\<close> raising \<open>DimensionalityError\<close>; otherwise it is the magnitude
  of the converted quantity.
\<close>

record ('m, 'u) quantities =
  parse_units :: "string \<Rightarrow> 'u option"
  convert :: "'m \<Rightarrow> 'u \<Rightarrow> 'u \<Rightarrow> 'm option"

text \<open>
  A value of a selection key: \<open>None\<close>, a plain number, or a quantity (a magnitude with a
  unit); or a slice of three such values.
\<close>

datatype ('m, 'u) pyval = PNone | Plain 'm | Quantity 'm 'u

datatype ('m, 'u) indexer =
    Scalar "('m, 'u) pyval"
  | Slice "('m, 'u) pyval" "('m, 'u) pyval" "('m, 'u) pyval"

text \<open>
  \<open>_to_magnitude(val, unit)\<close>: only a quantity has the method \<open>to\<close>; for every other
  value the \<open>AttributeError\<close> is caught and the value returned.
\<close>

definition to_magnitude ::
  "('m, 'u) quantities \<Rightarrow> ('m, 'u) pyval \<Rightarrow> 'u \<Rightarrow> error + ('m, 'u) pyval" where
  "to_magnitude q val unit =
     (case val of
        Quantity m u \<Rightarrow>
          (case convert q m u unit of
             None \<Rightarrow> Inl DimensionalityError
           | Some m' \<Rightarrow> Inr (Plain m'))
      | _ \<Rightarrow> Inr val)"

text \<open>The accessor property \<open>units\<close> of a coordinate.\<close>

definition metpy_units :: "('m, 'u) quantities \<Rightarrow> coordinate \<Rightarrow> error + 'u" where
  "metpy_units q var =
     (let u = (case attrs_get var ''units'' of None \<Rightarrow> ''dimensionless'' | Some u \<Rightarrow> u)
      in case parse_units q (if u \<noteq> ''%'' then u else ''percent'') of
           None \<Rightarrow> Inl UndefinedUnitError
         | Some un \<Rightarrow> Inr un)"

text \<open>
  \<open>data[coord_name]\<close>: the coordinate variable of that name; for a dimension that has
  no coordinate variable, the default index coordinate that xarray builds for it, which
  has no attributes; \<open>KeyError\<close> for any other name.
\<close>

definition getitem :: "data_array \<Rightarrow> string \<Rightarrow> error + coordinate" where
  "getitem data k =
     (case find (\<lambda>c. name c = k) (coords data) of
        Some c \<Rightarrow> Inr c
      | None \<Rightarrow>
          if k \<in> set (da_dims data) then Inr \<lparr>name = k, dims = [k], attrs = []\<rparr>
          else Inl (KeyError k))"

definition coord_units :: "('m, 'u) quantities \<Rightarrow> data_array \<Rightarrow> string \<Rightarrow> error + 'u" where
  "coord_units q data k =
     (case getitem data k of Inl e \<Rightarrow> Inl e | Inr var \<Rightarrow> metpy_units q var)"

text \<open>
  The dictionary \<open>indexers\<close> is changed while the loop iterates over it, so it is
  modelled as CPython stores it: a list of entries in insertion order, in which a deleted
  key leaves an empty entry, a new key is appended and assigning to a present key
  replaces its value in place. The dictionary is taken as the caller built it, without
  deleted entries, and its table is not resized during the loop; CPython resizes a table
  only when an insertion finds it full, which a mapping of one or two keys never does in
  this loop.
\<close>

type_synonym ('m, 'u) slots = "(string \<times> ('m, 'u) indexer) option list"

definition dict_items :: "('k \<times> 'v) option list \<Rightarrow> ('k \<times> 'v) list" where
  "dict_items slots = List.map_filter id slots"

definition dict_len :: "('k \<times> 'v) option list \<Rightarrow> nat" where
  "dict_len slots = length (dict_items slots)"

definition dict_get :: "('k \<times> 'v) option list \<Rightarrow> 'k \<Rightarrow> 'v option" where
  "dict_get slots k = map_of (dict_items slots) k"

definition dict_set :: "'k \<Rightarrow> 'v \<Rightarrow> ('k \<times> 'v) option list \<Rightarrow> ('k \<times> 'v) option list" where
  "dict_set k v slots =
     (if k \<in> fst ` set (dict_items slots)
      then map (\<lambda>s. case s of None \<Rightarrow> None
                     | Some (k', v') \<Rightarrow> if k' = k then Some (k, v) else Some (k', v')) slots
      else slots @ [Some (k, v)])"

definition dict_del :: "'k \<Rightarrow> ('k \<times> 'v) option list \<Rightarrow> ('k \<times> 'v) option list" where
  "dict_del k slots =
     map (\<lambda>s. case s of None \<Rightarrow> None
              | Some (k', v') \<Rightarrow> if k' = k then None else Some (k', v')) slots"

text \<open>The two conversion steps of the loop body on the value of one key.\<close>

definition convert_indexer ::
  "('m, 'u) quantities \<Rightarrow> 'u \<Rightarrow> ('m, 'u) indexer \<Rightarrow> error + ('m, 'u) indexer" where
  "convert_indexer q unit v =
     (case v of
        Slice start stop step \<Rightarrow>
          (case to_magnitude q start unit of
             Inl e \<Rightarrow> Inl e
           | Inr start' \<Rightarrow>
               (case to_magnitude q stop unit of
                  Inl e \<Rightarrow> Inl e
                | Inr stop' \<Rightarrow>
                    (case to_magnitude q step unit of
                       Inl e \<Rightarrow> Inl e
                     | Inr step' \<Rightarrow> Inr (Slice start' stop' step'))))
      | Scalar val \<Rightarrow>
          (case to_magnitude q val unit of Inl e \<Rightarrow> Inl e | Inr val' \<Rightarrow> Inr (Scalar val')))"

text \<open>
  The same on the dictionary: \<open>indexers[coord_name]\<close> is read (\<open>KeyError\<close> when absent),
  the unit of \<open>data[coord_name]\<close> is evaluated before each conversion, and the result is
  stored under \<open>coord_name\<close>.
\<close>

definition convert_entry ::
  "('m, 'u) quantities \<Rightarrow> data_array \<Rightarrow> string \<Rightarrow> ('m, 'u) slots \<Rightarrow> error + ('m, 'u) slots" where
  "convert_entry q data coord_name slots =
     (case dict_get slots coord_name of
        None \<Rightarrow> Inl (KeyError coord_name)
      | Some v \<Rightarrow>
          (case coord_units q data coord_name of
             Inl e \<Rightarrow> Inl e
           | Inr unit \<Rightarrow>
               (case convert_indexer q unit v of
                  Inl e \<Rightarrow> Inl e
                | Inr v' \<Rightarrow> Inr (dict_set coord_name v' slots))))"

text \<open>
  The body of the loop for one key. The flag \<open>is_data_array\<close> is
  \<open>isinstance(data, xr.DataArray)\<close>; for a dataset, \<open>data\<close> holds its variables as
  \<open>coords\<close>.
\<close>

definition reassign_step ::
  "'d registry \<Rightarrow> ('m, 'u) quantities \<Rightarrow> bool \<Rightarrow> string \<Rightarrow> data_array \<Rightarrow> ('m, 'u) slots
     \<Rightarrow> ('m, 'u) slots outcome" where
  "reassign_step reg q is_data_array coord_name data slots =
     (if is_data_array \<and> coord_name \<notin> set (da_dims data)
         \<and> coord_name \<in> set (map fst readable_to_cf_axes)
      then
        (let r = get_axis reg data coord_name
         in case result r of
              Inl e \<Rightarrow> \<lparr>result = Inl e, array = array r, warned = warned r, writes = writes r\<rparr>
            | Inr i \<Rightarrow>
                (let name' = name (coords (array r) ! i)
                 in case dict_get slots coord_name of
                      None \<Rightarrow> \<lparr>result = Inl (KeyError coord_name), array = array r,
                                warned = warned r, writes = writes r\<rparr>
                    | Some v \<Rightarrow>
                        \<lparr>result = convert_entry q (array r) name'
                                     (dict_del coord_name (dict_set name' v slots)),
                         array = array r, warned = warned r, writes = writes r\<rparr>))
      else \<lparr>result = convert_entry q data coord_name slots, array = data,
             warned = [], writes = []\<rparr>)"

text \<open>The first entry of a list of entries that is not empty, with its position.\<close>

fun first_live :: "nat \<Rightarrow> 'a option list \<Rightarrow> (nat \<times> 'a) option" where
  "first_live i [] = None"
| "first_live i (None # slots) = first_live (Suc i) slots"
| "first_live i (Some x # slots) = Some (i, x)"

definition next_entry :: "nat \<Rightarrow> 'a option list \<Rightarrow> (nat \<times> 'a) option" where
  "next_entry pos slots = first_live pos (drop pos slots)"

text \<open>
  The loop \<open>for coord_name in indexers\<close>, as the dictionary iterator of CPython (3.8 and
  later) runs it. The iterator remembers the number of keys at the start (\<open>used\<close>), its
  position and how many keys it has still to yield (\<open>len\<close>). At every step it raises
  \<open>RuntimeError\<close> when the number of keys differs from the number at the start; it skips
  empty entries and ends after the last entry; and it raises \<open>RuntimeError\<close> when it finds
  an entry after it has yielded as many keys as the dictionary had at the start, that
  is, when it reaches a key that the body has inserted.
\<close>

fun reassign_loop ::
  "'d registry \<Rightarrow> ('m, 'u) quantities \<Rightarrow> bool \<Rightarrow> nat \<Rightarrow> nat \<Rightarrow> nat \<Rightarrow> ('m, 'u) slots outcome
     \<Rightarrow> ('m, 'u) slots outcome" where
  "reassign_loop reg q is_data_array used 0 pos st =
     (case result st of
        Inl e \<Rightarrow> st
      | Inr slots \<Rightarrow>
          if dict_len slots \<noteq> used
          then st\<lparr>result := Inl (RuntimeError ''dictionary changed size during iteration'')\<rparr>
          else (case next_entry pos slots of
                  None \<Rightarrow> st
                | Some (i, entry) \<Rightarrow>
                    st\<lparr>result := Inl (RuntimeError ''dictionary keys changed during iteration'')\<rparr>))"
| "reassign_loop reg q is_data_array used (Suc len) pos st =
     (case result st of
        Inl e \<Rightarrow> st
      | Inr slots \<Rightarrow>
          if dict_len slots \<noteq> used
          then st\<lparr>result := Inl (RuntimeError ''dictionary changed size during iteration'')\<rparr>
          else (case next_entry pos slots of
                  None \<Rightarrow> st
                | Some (i, entry) \<Rightarrow>
                    (let r = reassign_step reg q is_data_array (fst entry) (array st) slots
                     in reassign_loop reg q is_data_array used len (Suc i)
                          \<lparr>result = result r, array = array r,
                           warned = warned st @ warned r, writes = writes st @ writes r\<rparr>)))"

text \<open>\<open>_reassign_quantity_indexer(data, indexers)\<close> returns the dictionary as it is at the end.\<close>

definition reassign_quantity_indexer ::
  "'d registry \<Rightarrow> ('m, 'u) quantities \<Rightarrow> bool \<Rightarrow> data_array \<Rightarrow> (string \<times> ('m, 'u) indexer) list
     \<Rightarrow> (string \<times> ('m, 'u) indexer) list outcome" where
  "reassign_quantity_indexer reg q is_data_array data indexers =
     (let st = reassign_loop reg q is_data_array (length indexers) (length indexers) 0
                 \<lparr>result = Inr (map Some indexers), array = data, warned = [], writes = []\<rparr>
      in \<lparr>result = map_sum id dict_items (result st), array = array st,
          warned = warned st, writes = writes st\<rparr>)"

text \<open>
  Translating the entries one after the other, stopping at the first error: what the
  loop amounts to when no key has to be replaced by a coordinate name.
\<close>

fun translate_all ::
  "('m, 'u) quantities \<Rightarrow> data_array \<Rightarrow> (string \<times> ('m, 'u) indexer) list
     \<Rightarrow> error + (string \<times> ('m, 'u) indexer) list" where
  "translate_all q data [] = Inr []"
| "translate_all q data ((k, v) # rest) =
     (case coord_units q data k of
        Inl e \<Rightarrow> Inl e
      | Inr unit \<Rightarrow>
          (case convert_indexer q unit v of
             Inl e \<Rightarrow> Inl e
           | Inr v' \<Rightarrow>
               (case translate_all q data rest of
                  Inl e \<Rightarrow> Inl e
                | Inr rest' \<Rightarrow> Inr ((k, v') # rest'))))"

subsection \<open>Notions used to state the properties\<close>

text \<open>The strings a table entry lists: the string itself, or the members of the set.\<close>

definition entry_values :: "entry \<Rightarrow> string set" where
  "entry_values e = (case e of EStr s \<Rightarrow> {s} | ESet xs \<Rightarrow> set xs)"

text \<open>Two coordinates that differ at most in the cache mark.\<close>

definition unmarked_eq :: "coordinate \<Rightarrow> coordinate \<Rightarrow> bool" where
  "unmarked_eq c c' \<longleftrightarrow>
     name c = name c' \<and> dims c = dims c'
     \<and> (\<forall>k. k \<noteq> ''_metpy_axis'' \<longrightarrow> attrs_get c k = attrs_get c' k)"

text \<open>Two arrays that differ at most in the cache marks of their coordinates.\<close>

definition same_metadata :: "data_array \<Rightarrow> data_array \<Rightarrow> bool" where
  "same_metadata da da' \<longleftrightarrow>
     da_name da = da_name da' \<and> length (coords da) = length (coords da')
     \<and> (\<forall>i. unmarked_eq (coords da ! i) (coords da' ! i))"

text \<open>
  The conflict rules of \<open>_resolve_axis_conflict\<close> as functions of the candidate list:
  the candidates that are projection coordinates, those that are dimension coordinates,
  the list the rules prefer (if any), the candidate list of an axis after resolution,
  and the axes that stay ambiguous.
\<close>

definition projection_coords :: "'d registry \<Rightarrow> data_array \<Rightarrow> nat list \<Rightarrow> nat list" where
  "projection_coords reg da cands = filter (\<lambda>i. check_axis reg (coords da ! i) [Ax, Ay]) cands"

definition dimension_coords :: "data_array \<Rightarrow> nat list \<Rightarrow> nat list" where
  "dimension_coords da cands =
     filter (\<lambda>i. name (coords da ! i) \<in> set (dims (coords da ! i))) cands"

definition preferred :: "'d registry \<Rightarrow> data_array \<Rightarrow> cf_axis \<Rightarrow> nat list \<Rightarrow> nat list option" where
  "preferred reg da axis cands =
     (if (axis = Y \<or> axis = X) \<and> length (projection_coords reg da cands) = 1
      then Some (projection_coords reg da cands)
      else if length (dimension_coords da cands) = 1
      then Some (dimension_coords da cands)
      else None)"

definition resolved :: "'d registry \<Rightarrow> data_array \<Rightarrow> cf_axis \<Rightarrow> nat list" where
  "resolved reg da axis =
     (let cands = coord_lists reg da axis
      in if length cands > 1
         then (case preferred reg da axis cands of Some sel \<Rightarrow> sel | None \<Rightarrow> [])
         else cands)"

definition ambiguous :: "'d registry \<Rightarrow> data_array \<Rightarrow> cf_axis \<Rightarrow> bool" where
  "ambiguous reg da axis \<longleftrightarrow>
     length (coord_lists reg da axis) > 1
     \<and> preferred reg da axis (coord_lists reg da axis) = None"

text \<open>
  A key that the loop body keeps: it is not replaced by the name of the coordinate of an
  axis type.
\<close>

definition literal_key :: "bool \<Rightarrow> data_array \<Rightarrow> string \<Rightarrow> bool" where
  "literal_key is_data_array data k \<longleftrightarrow>
     \<not> (is_data_array \<and> k \<notin> set (da_dims data) \<and> k \<in> set (map fst readable_to_cf_axes))"

text \<open>The number of entries of a dictionary that are not empty.\<close>

definition live :: "'a option list \<Rightarrow> nat" where
  "live slots = length (filter (\<lambda>s. s \<noteq> None) slots)"

text \<open>
  A change of the entries that at most empties entries and appends entries: no empty
  entry is filled again.
\<close>

definition shrinks :: "'a option list \<Rightarrow> 'a option list \<Rightarrow> bool" where
  "shrinks slots slots' \<longleftrightarrow>
     length slots \<le> length slots' \<and> (\<forall>j<length slots. slots' ! j \<noteq> None \<longrightarrow> slots ! j \<noteq> None)"

text \<open>The units criterion of an axis type that is matched by the name of the unit.\<close>

definition units_named :: "coordinate \<Rightarrow> axis_type \<Rightarrow> bool" where
  "units_named var a =
     (case units_criteria a of
        Some (Name names) \<Rightarrow>
          (case attrs_get var ''units'' of None \<Rightarrow> False | Some u \<Rightarrow> u \<in> set names)
      | _ \<Rightarrow> False)"

text \<open>The axes that the marking loop reaches after a given axis.\<close>

fun later_axes :: "cf_axis \<Rightarrow> cf_axis list" where
  "later_axes T = [Z, Y, X]"
| "later_axes Z = [Y, X]"
| "later_axes Y = [X]"
| "later_axes X = []"

text \<open>The resolver selects the coordinate at position \<open>i\<close> for an axis.\<close>

definition selects :: "'d registry \<Rightarrow> data_array \<Rightarrow> cf_axis \<Rightarrow> nat \<Rightarrow> bool" where
  "selects reg da axis i =
     (case fst (generate_coordinate_map reg da) of
        Inl e \<Rightarrow> False
      | Inr coord_map \<Rightarrow> coord_map axis = Some i)"

subsection \<open>Example inputs\<close>

text \<open>A registry that knows no unit at all: every lookup raises \<open>UndefinedUnitError\<close>.\<close>

definition reg_none :: "nat registry" where
  "reg_none = \<lparr>get_dimensionality = (\<lambda>u. None)\<rparr>"

definition foo_air_pressure :: coordinate where
  "foo_air_pressure =
     \<lparr>name = ''foo'', dims = [],
      attrs = [(''standard_name'', ''air_pressure''), (''units'', ''degC'')]\<rparr>"

definition foo_im :: coordinate where
  "foo_im = \<lparr>name = ''foo'', dims = [], attrs = [(''standard_name'', ''im'')]\<rparr>"

definition pressure_undefined :: coordinate where
  "pressure_undefined =
     \<lparr>name = ''Pressure'', dims = [''Pressure''], attrs = [(''units'', ''foo'')]\<rparr>"

text \<open>
  Two coordinates that match no criterion of any axis type, both marked as the vertical
  coordinate.
\<close>

definition foo_bar_marked :: data_array where
  "foo_bar_marked =
     \<lparr>da_name = Some ''temperature'', da_dims = [''a'', ''b''],
      coords = [\<lparr>name = ''foo'', dims = [''a''], attrs = [(''_metpy_axis'', ''Z'')]\<rparr>,
                \<lparr>name = ''bar'', dims = [''b''], attrs = [(''_metpy_axis'', ''Z'')]\<rparr>]\<rparr>"

definition time_pressure :: data_array where
  "time_pressure =
     \<lparr>da_name = Some ''temperature'', da_dims = [''time'', ''pressure''],
      coords = [\<lparr>name = ''time'', dims = [''time''], attrs = []\<rparr>,
                \<lparr>name = ''pressure'', dims = [''pressure''], attrs = [(''units'', ''hPa'')]\<rparr>]\<rparr>"

text \<open>A coordinate \<open>lat\<close> that was assigned to the X axis by hand.\<close>

definition lat_marked_x :: data_array where
  "lat_marked_x =
     \<lparr>da_name = Some ''temperature'', da_dims = [''station''],
      coords = [\<lparr>name = ''lat'', dims = [''station''], attrs = [(''_metpy_axis'', ''X'')]\<rparr>]\<rparr>"

text \<open>An array whose only coordinate is \<open>XLAT\<close>, which matches both Y (\<open>x?lat\<close>) and X (\<open>x\<close>).\<close>

definition xlat_only :: data_array where
  "xlat_only =
     \<lparr>da_name = Some ''T2'', da_dims = [''south_north'', ''west_east''],
      coords = [\<lparr>name = ''XLAT'', dims = [''south_north'', ''west_east''], attrs = []\<rparr>]\<rparr>"

text \<open>An unnamed array with two latitude coordinates, neither a dimension coordinate.\<close>

definition lat_pair_unnamed :: data_array where
  "lat_pair_unnamed =
     \<lparr>da_name = None, da_dims = [''station''],
      coords = [\<lparr>name = ''lat1'', dims = [''station''], attrs = []\<rparr>,
                \<lparr>name = ''lat2'', dims = [''station''], attrs = []\<rparr>]\<rparr>"

text \<open>
  A registry for quantities that knows \<open>hPa\<close> and \<open>Pa\<close> over integer magnitudes.
\<close>

datatype unit_name = HPa | Pascal

definition q_pressure :: "(int, unit_name) quantities" where
  "q_pressure =
     \<lparr>parse_units = (\<lambda>s. if s = ''hPa'' then Some HPa else if s = ''Pa'' then Some Pascal else None),
      convert = (\<lambda>m u u'. if u = u' then Some m
                           else if u = HPa \<and> u' = Pascal then Some (100 * m) else None)\<rparr>"

text \<open>The array of the scenario: one coordinate \<open>pressure\<close> in \<open>hPa\<close>.\<close>

definition isobaric_field :: data_array where
  "isobaric_field =
     \<lparr>da_name = Some ''temperature'', da_dims = [''pressure''],
      coords = [\<lparr>name = ''pressure'', dims = [''pressure''],
                 attrs = [(''standard_name'', ''air_pressure''), (''units'', ''hPa'')]\<rparr>]\<rparr>"

text \<open>The same array after the vertical axis has been looked up.\<close>

definition isobaric_marked :: data_array where
  "isobaric_marked =
     \<lparr>da_name = Some ''temperature'', da_dims = [''pressure''],
      coords = [\<lparr>name = ''pressure'', dims = [''pressure''],
                 attrs = [(''standard_name'', ''air_pressure''), (''units'', ''hPa''),
                          (''_metpy_axis'', ''Z'')]\<rparr>]\<rparr>"

text \<open>An array whose coordinate \<open>pressure\<close> is declared in \<open>Pa\<close>.\<close>

definition station_pa :: data_array where
  "station_pa =
     \<lparr>da_name = Some ''wind'', da_dims = [''pressure''],
      coords = [\<lparr>name = ''pressure'', dims = [''pressure''], attrs = [(''units'', ''Pa'')]\<rparr>]\<rparr>"

text \<open>
  A named array with two latitude coordinates, neither a dimension coordinate; and the
  same array after \<open>lat1\<close> has been assigned to the Y axis by hand.
\<close>

definition lat_pair_marked :: data_array where
  "lat_pair_marked =
     \<lparr>da_name = Some ''temperature'', da_dims = [''station''],
      coords = [\<lparr>name = ''lat1'', dims = [''station''], attrs = [(''_metpy_axis'', ''Y'')]\<rparr>,
                \<lparr>name = ''lat2'', dims = [''station''], attrs = []\<rparr>]\<rparr>"

definition lat_pair :: data_array where
  "lat_pair =
     \<lparr>da_name = Some ''temperature'', da_dims = [''station''],
      coords = [\<lparr>name = ''lat1'', dims = [''station''], attrs = []\<rparr>,
                \<lparr>name = ''lat2'', dims = [''station''], attrs = []\<rparr>]\<rparr>"

text \<open>
  A time coordinate with a CF time unit, and a registry function that knows \<open>Pa\<close>, raises
  \<open>TypeError\<close> on that time unit and \<open>UndefinedUnitError\<close> on everything else.
\<close>

definition time_since :: coordinate where
  "time_since =
     \<lparr>name = ''time'', dims = [''time''],
      attrs = [(''units'', ''hours since 1970-01-01 00:00:00'')]\<rparr>"

definition gd_strict:: "string option \<Rightarrow> error + nat" where
  "gd_strict u =
     (if u = Some ''Pa'' then Inr 1
      else if u = Some ''hours since 1970-01-01 00:00:00'' then Inl TypeError
      else Inl UndefinedUnitError)"

section \<open>Properties\<close>

subsection \<open>Strings and lists\<close>

lemma starts_with_iff: "starts_with sub s \<longleftrightarrow> (\<exists>ss. s = sub @ ss)"
  unfolding starts_with_def
  by (metis append_eq_conv_conj append_take_drop_id)

lemma str_in_iff: "str_in sub s \<longleftrightarrow> (\<exists>ps ss. s = ps @ sub @ ss)"
proof (induction s)
  case Nil
  show ?case by auto
next
  case (Cons c cs)
  have "(\<exists>ps ss. c # cs = ps @ sub @ ss) \<longleftrightarrow>
        (\<exists>ss. c # cs = sub @ ss) \<or> (\<exists>ps ss. cs = ps @ sub @ ss)"
  proof
    assume "\<exists>ps ss. c # cs = ps @ sub @ ss"
    then obtain ps ss where e: "c # cs = ps @ sub @ ss" by blast
    show "(\<exists>ss. c # cs = sub @ ss) \<or> (\<exists>ps ss. cs = ps @ sub @ ss)"
      using e by (cases ps) auto
  next
    assume "(\<exists>ss. c # cs = sub @ ss) \<or> (\<exists>ps ss. cs = ps @ sub @ ss)"
    then show "\<exists>ps ss. c # cs = ps @ sub @ ss"
      by (metis append_Cons append_Nil)
  qed
  then show ?case by (simp add: Cons.IH starts_with_iff)
qed

lemma str_in_refl: "str_in s s"
  by (simp add: str_in_iff) (metis append_Nil append_Nil2)

lemma first_index_None: "first_index P xs = None \<longleftrightarrow> (\<forall>x\<in>set xs. \<not> P x)"
  by (induction xs) auto

lemma first_index_Some:
  "first_index P xs = Some i \<longleftrightarrow> i < length xs \<and> P (xs ! i) \<and> (\<forall>j<i. \<not> P (xs ! j))"
proof (induction xs arbitrary: i)
  case Nil
  show ?case by simp
next
  case (Cons x xs)
  show ?case
  proof (cases "P x")
    case True
    then show ?thesis by (cases i) auto
  next
    case False
    show ?thesis
    proof (cases i)
      case 0
      with False show ?thesis by auto
    next
      case (Suc k)
      have "(\<forall>j<Suc k. \<not> P ((x # xs) ! j)) \<longleftrightarrow> (\<forall>j<k. \<not> P (xs ! j))"
        using False by (auto simp: less_Suc_eq_0_disj)
      with False Suc Cons.IH [of k] show ?thesis by auto
    qed
  qed
qed

subsection \<open>The axis matcher\<close>

lemma py_in_entry_values: "v \<in> entry_values e \<Longrightarrow> py_in v e"
  by (cases e) (auto simp: entry_values_def str_in_refl)

lemma check_axis_iff:
  "check_axis reg var axes \<longleftrightarrow>
     (\<exists>a \<in> set axes. attributes_match var a \<or> units_match reg var a \<or> name_matches var a)"
  by (induction axes) auto

lemma criterion_attributes_match:
  "criterion_matches var a cr \<Longrightarrow> attributes_match var a"
  unfolding attributes_match_def list_ex_iff by (cases cr) auto

text \<open>
  Claim C4. A coordinate whose \<open>standard_name\<close> attribute equals an entry of the criteria
  table for an axis type is matched by \<open>check_axis\<close> for every list of axis types
  that contains this type, whatever its name, its units and the units registry are.
\<close>

theorem check_axis_standard_name:
  assumes "attrs_get var ''standard_name'' = Some v"
    and "v \<in> entry_values (standard_name_criteria a)"
    and "a \<in> set axes"
  shows "check_axis reg var axes"
proof -
  have "py_in v (attribute_criteria Standard_name a)"
    using assms(2) by (simp add: py_in_entry_values)
  then have "criterion_matches var a Standard_name"
    using assms(1) by (simp add: criterion_matches_def)
  then have "attributes_match var a"
    by (rule criterion_attributes_match)
  then show ?thesis
    using assms(3) by (auto simp: check_axis_iff)
qed

theorem check_axis_standard_name_witness:
  "attrs_get foo_air_pressure ''standard_name'' = Some ''air_pressure''
   \<and> ''air_pressure'' \<in> entry_values (standard_name_criteria Vertical)
   \<and> Vertical \<in> set [Vertical]
   \<and> check_axis reg_none foo_air_pressure [Vertical]"
proof -
  have 1: "attrs_get foo_air_pressure ''standard_name'' = Some ''air_pressure''"
    by (simp add: attrs_get_def foo_air_pressure_def)
  have 2: "''air_pressure'' \<in> entry_values (standard_name_criteria Vertical)"
    by (simp add: entry_values_def)
  have 3: "Vertical \<in> set [Vertical]" by simp
  from check_axis_standard_name [OF 1 2 3, of reg_none] 1 2 3 show ?thesis by blast
qed

text \<open>
  Claim C9. Where the table entry of an attribute criterion is a single string, the
  membership test is substring containment: a coordinate whose attribute value occurs
  in the entry as a contiguous substring is matched. The witness is a coordinate with
  \<open>standard_name\<close> \<open>im\<close>, which is matched as a time coordinate although \<open>im\<close> is not \<open>time\<close>.
\<close>

theorem check_axis_substring:
  assumes "attribute_criteria cr a = EStr s"
    and "attrs_get var (criterion_key cr) = Some v"
    and "\<exists>ps ss. s = ps @ v @ ss"
    and "a \<in> set axes"
  shows "check_axis reg var axes"
proof -
  have "py_in v (attribute_criteria cr a)"
    using assms(1,3) by (simp add: str_in_iff)
  then have "criterion_matches var a cr"
    using assms(2) by (simp add: criterion_matches_def)
  then have "attributes_match var a"
    by (rule criterion_attributes_match)
  then show ?thesis
    using assms(4) by (auto simp: check_axis_iff)
qed

theorem check_axis_substring_witness:
  "attribute_criteria Standard_name Time = EStr ''time''
   \<and> attrs_get foo_im (criterion_key Standard_name) = Some ''im''
   \<and> (\<exists>ps ss. ''time'' = ps @ ''im'' @ ss) \<and> ''im'' \<noteq> ''time''
   \<and> Time \<in> set [Time]
   \<and> check_axis reg_none foo_im [Time]"
proof -
  have 1: "attribute_criteria Standard_name Time = EStr ''time''" by simp
  have 2: "attrs_get foo_im (criterion_key Standard_name) = Some ''im''"
    by (simp add: attrs_get_def foo_im_def)
  have "''time'' = ''t'' @ ''im'' @ ''e''" by simp
  then have 3: "\<exists>ps ss. ''time'' = ps @ ''im'' @ ss" by blast
  have 4: "Time \<in> set [Time]" by simp
  from check_axis_substring [OF 1 2 3 4, of reg_none] 1 2 3 4 show ?thesis by simp
qed

text \<open>
  The function with exceptions agrees with \<open>check_axis\<close> on a registry whose only
  exception is \<open>UndefinedUnitError\<close>.
\<close>

lemma units_try_raising:
  "units_try (raising reg) var a
   = (case units_test reg var a of None \<Rightarrow> Inl UndefinedUnitError | Some b \<Rightarrow> Inr b)"
  by (simp add: units_try_def units_test_def raising_def
        split: option.splits units_rule.splits)

lemma check_axis_raising_registry:
  "check_axis_raising (raising reg) var axes = Inr (check_axis reg var axes)"
  by (induction axes) (simp_all add: units_try_raising units_match_def split: option.splits)

lemma units_try_undefined:
  assumes "gd (attrs_get var ''units'') = Inl UndefinedUnitError"
  shows "units_try gd var a
         = (case units_criteria a of
              Some (Dimensionality ref) \<Rightarrow> Inl UndefinedUnitError
            | _ \<Rightarrow> Inr (units_named var a))"
  using assms
  by (simp add: units_try_def units_named_def split: option.splits units_rule.splits)

lemma other_error_escapes:
  assumes "gd (attrs_get var ''units'') = Inl e" and "e \<noteq> UndefinedUnitError"
    and "units_criteria a = Some (Dimensionality ref)" and "\<not> attributes_match var a"
  shows "check_axis_raising gd var (a # axes) = Inl e"
  using assms by (simp add: units_try_def)

text \<open>
  Claim C5, as amended. When the registry raises \<open>UndefinedUnitError\<close> on the unit of the
  coordinate, the units rule by dimensionality raises it inside \<open>try\<close>, and \<open>check_axis\<close>
  raises nothing, for every list of axis types: the exception is caught, the rule does
  not match, and the result is \<open>True\<close> exactly when for one of the listed axis types an
  attribute criterion matches, or the unit is one of the unit names of the type, or the
  name matches the pattern of the type. The witness is a coordinate named \<open>Pressure\<close>
  with the unknown unit \<open>foo\<close>: it is matched as a vertical coordinate by its name.
\<close>

theorem undefined_unit_swallowed:
  assumes "gd (attrs_get var ''units'') = Inl UndefinedUnitError"
  shows "units_try gd var Vertical = Inl UndefinedUnitError
       \<and> check_axis_raising gd var axes
           = Inr (list_ex (\<lambda>a. attributes_match var a \<or> units_named var a \<or> name_matches var a) axes)"
proof -
  have 1: "units_try gd var Vertical = Inl UndefinedUnitError"
    using assms by (simp add: units_try_def)
  have 2: "check_axis_raising gd var axes
           = Inr (list_ex (\<lambda>a. attributes_match var a \<or> units_named var a \<or> name_matches var a) axes)"
  proof (induction axes)
    case Nil
    show ?case by simp
  next
    case (Cons a axes)
    show ?case
    proof (cases "units_criteria a")
      case None
      then show ?thesis
        using Cons by (simp add: units_try_undefined [where gd = gd and var = var, OF assms] units_named_def)
    next
      case (Some r)
      then show ?thesis
        using Cons by (cases r) (simp_all add: units_try_undefined [where gd = gd and var = var, OF assms] units_named_def)
    qed
  qed
  from 1 2 show ?thesis by blast
qed

theorem undefined_unit_swallowed_witness:
  "gd_strict (attrs_get pressure_undefined ''units'') = Inl UndefinedUnitError
   \<and> units_try gd_strict pressure_undefined Vertical = Inl UndefinedUnitError
   \<and> \<not> attributes_match pressure_undefined Vertical
   \<and> \<not> units_named pressure_undefined Vertical
   \<and> name_matches pressure_undefined Vertical
   \<and> check_axis_raising gd_strict pressure_undefined [Vertical] = Inr True"
proof -
  have 1: "gd_strict (attrs_get pressure_undefined ''units'') = Inl UndefinedUnitError"
    by (simp add: gd_strict_def attrs_get_def pressure_undefined_def)
  have 3: "\<not> attributes_match pressure_undefined Vertical"
    by (simp add: attributes_match_def criterion_matches_def attrs_get_def
        pressure_undefined_def axis_criteria_def readable_to_cf_axes_def starts_with_def)
  have 4: "name_matches pressure_undefined Vertical"
    by (simp add: name_matches_def pressure_undefined_def lower_def lower_char_def
        uppers_def lowers_def digits_def opt_def)
  have 5: "\<not> units_named pressure_undefined Vertical"
    by (simp add: units_named_def)
  from undefined_unit_swallowed [where gd = gd_strict and var = pressure_undefined
      and axes = "[Vertical]", OF 1] 1 3 4 5 show ?thesis by simp
qed

text \<open>
  Claim C5 as stated fails: only \<open>UndefinedUnitError\<close> is caught. On the unit
  \<open>hours since 1970-01-01 00:00:00\<close> of a time coordinate the registry raises
  \<open>TypeError\<close>, and the check of that coordinate for the vertical axis, which no
  attribute settles before the units are read, ends with this \<open>TypeError\<close>.
\<close>

theorem unparseable_unit_escapes_counterexample:
  "attrs_get time_since ''units'' = Some ''hours since 1970-01-01 00:00:00''
   \<and> gd_strict (attrs_get time_since ''units'') = Inl TypeError
   \<and> check_axis_raising gd_strict time_since [Vertical] = Inl TypeError
   \<and> check_axis_raising gd_strict time_since [Time] = Inr True"
  by code_simp

subsection \<open>The cache\<close>

text \<open>
  Claim C10. When some coordinate carries the requested axis in \<open>_metpy_axis\<close>, the
  search returns the first such coordinate in the order of the coordinates and does
  nothing else: the array is unchanged, nothing is warned, no mark is written. The
  result does not depend on the registry nor on any other attribute or the name of that
  coordinate, and other coordinates with the same mark do not matter.
\<close>

theorem cache_hit_trusted:
  assumes "\<exists>c\<in>set (coords da). metpy_axis c = Some (cf_str cf)"
  shows "\<exists>i<length (coords da).
           metpy_axis (coords da ! i) = Some (cf_str cf)
         \<and> (\<forall>j<i. metpy_axis (coords da ! j) \<noteq> Some (cf_str cf))
         \<and> metpy_axis_search reg da cf
             = \<lparr>result = Inr (Some i), array = da, warned = [], writes = []\<rparr>"
proof -
  from assms obtain i
    where i: "first_index (\<lambda>c. metpy_axis c = Some (cf_str cf)) (coords da) = Some i"
    using first_index_None [of "\<lambda>c. metpy_axis c = Some (cf_str cf)" "coords da"]
    by (cases "first_index (\<lambda>c. metpy_axis c = Some (cf_str cf)) (coords da)") auto
  then have "metpy_axis_search reg da cf
             = \<lparr>result = Inr (Some i), array = da, warned = [], writes = []\<rparr>"
    by (simp add: metpy_axis_search_def)
  with i show ?thesis
    unfolding first_index_Some by blast
qed

theorem cache_hit_trusted_witness:
  "(\<exists>c\<in>set (coords foo_bar_marked). metpy_axis c = Some (cf_str Z))
   \<and> \<not> check_axis reg_none (coords foo_bar_marked ! 0) [Time, Vertical, Ay, Lat, Ax, Lon]
   \<and> metpy_axis_search reg_none foo_bar_marked Z
       = \<lparr>result = Inr (Some 0), array = foo_bar_marked, warned = [], writes = []\<rparr>"
proof -
  have 1: "\<exists>c\<in>set (coords foo_bar_marked). metpy_axis c = Some (cf_str Z)"
    by (simp add: foo_bar_marked_def metpy_axis_def attrs_get_def)
  have 2: "\<not> check_axis reg_none (coords foo_bar_marked ! 0) [Time, Vertical, Ay, Lat, Ax, Lon]"
    by (simp add: foo_bar_marked_def reg_none_def attributes_match_def criterion_matches_def
        attrs_get_def axis_criteria_def readable_to_cf_axes_def starts_with_def
        units_match_def units_test_def name_matches_def lower_def lower_char_def
        uppers_def lowers_def digits_def opt_def)
  from cache_hit_trusted [OF 1, of reg_none] obtain i where
    i: "metpy_axis (coords foo_bar_marked ! i) = Some (cf_str Z)"
       "\<forall>j<i. metpy_axis (coords foo_bar_marked ! j) \<noteq> Some (cf_str Z)"
       "metpy_axis_search reg_none foo_bar_marked Z
          = \<lparr>result = Inr (Some i), array = foo_bar_marked, warned = [], writes = []\<rparr>"
    by blast
  have "metpy_axis (coords foo_bar_marked ! 0) = Some (cf_str Z)"
    by (simp add: foo_bar_marked_def metpy_axis_def attrs_get_def)
  with i(2) have "i = 0" by (cases i) auto
  with i(3) 1 2 show ?thesis by simp
qed

subsection \<open>The marking loop\<close>

lemma assigned_iff:
  "assigned cs axis \<longleftrightarrow> (\<exists>j<length cs. metpy_axis (cs ! j) = Some (cf_str axis))"
  unfolding assigned_def list_ex_iff by (metis in_set_conv_nth)

lemma cf_str_inj: "cf_str a = cf_str b \<longleftrightarrow> a = b"
  by (cases a; cases b) simp_all

lemma unmarked_eq_refl: "unmarked_eq c c"
  by (simp add: unmarked_eq_def)

lemma unmarked_eq_trans: "unmarked_eq a b \<Longrightarrow> unmarked_eq b c \<Longrightarrow> unmarked_eq a c"
  by (simp add: unmarked_eq_def)

lemma set_metpy_axis_unmarked: "unmarked_eq (set_metpy_axis axis c) c"
  by (simp add: unmarked_eq_def set_metpy_axis_def attrs_get_def update_conv')

lemma metpy_axis_set: "metpy_axis (set_metpy_axis axis c) = Some (cf_str axis)"
  by (simp add: metpy_axis_def set_metpy_axis_def attrs_get_def update_conv')

lemma list_update_unmarked:
  "unmarked_eq (cs[i := set_metpy_axis axis (cs ! i)] ! j) (cs ! j)"
proof (cases "i = j \<and> i < length cs")
  case True
  then show ?thesis by (simp add: set_metpy_axis_unmarked)
next
  case False
  have "cs[i := set_metpy_axis axis (cs ! i)] ! j = cs ! j"
  proof (cases "i = j")
    case True
    with False have "length cs \<le> i" by simp
    then show ?thesis by (simp add: list_update_beyond)
  next
    case False
    then show ?thesis by simp
  qed
  then show ?thesis by (simp add: unmarked_eq_refl)
qed

lemma assign_parsed_fst:
  "fst (assign_parsed (axis # rest) m cs) =
     (case m axis of
        None \<Rightarrow> fst (assign_parsed rest m cs)
      | Some i \<Rightarrow>
          if assigned cs axis then fst (assign_parsed rest m cs)
          else fst (assign_parsed rest m (cs[i := set_metpy_axis axis (cs ! i)])))"
  by (simp split: option.splits prod.splits)

lemma assign_parsed_snd:
  "snd (assign_parsed (axis # rest) m cs) =
     (case m axis of
        None \<Rightarrow> snd (assign_parsed rest m cs)
      | Some i \<Rightarrow>
          if assigned cs axis then snd (assign_parsed rest m cs)
          else (i, axis) # snd (assign_parsed rest m (cs[i := set_metpy_axis axis (cs ! i)])))"
  by (simp split: option.splits prod.splits)

lemma assign_parsed_length:
  "length (fst (assign_parsed axes m cs)) = length cs"
proof (induction axes arbitrary: cs)
  case Nil
  show ?case by simp
next
  case (Cons axis rest)
  show ?case
    unfolding assign_parsed_fst by (simp add: Cons.IH split: option.splits)
qed

lemma assign_parsed_unmarked:
  "unmarked_eq (fst (assign_parsed axes m cs) ! j) (cs ! j)"
proof (induction axes arbitrary: cs)
  case Nil
  show ?case by (simp add: unmarked_eq_refl)
next
  case (Cons axis rest)
  show ?case
  proof (cases "m axis")
    case None
    then show ?thesis using Cons.IH by simp
  next
    case (Some i)
    show ?thesis
    proof (cases "assigned cs axis")
      case True
      then show ?thesis using Some Cons.IH by simp
    next
      case False
      let ?cs1 = "cs[i := set_metpy_axis axis (cs ! i)]"
      have "fst (assign_parsed (axis # rest) m cs) = fst (assign_parsed rest m ?cs1)"
        using Some False by (simp add: assign_parsed_fst assign_parsed_snd del: assign_parsed.simps)
      moreover have "unmarked_eq (fst (assign_parsed rest m ?cs1) ! j) (?cs1 ! j)"
        by (rule Cons.IH)
      moreover have "unmarked_eq (?cs1 ! j) (cs ! j)"
        by (rule list_update_unmarked)
      ultimately show ?thesis
        using unmarked_eq_trans by simp
    qed
  qed
qed

lemma assign_parsed_mark:
  assumes "j < length cs"
  shows "metpy_axis (fst (assign_parsed axes m cs) ! j) = metpy_axis (cs ! j)
       \<or> (\<exists>a\<in>set axes. m a = Some j
             \<and> metpy_axis (fst (assign_parsed axes m cs) ! j) = Some (cf_str a))"
  using assms
proof (induction axes arbitrary: cs)
  case Nil
  show ?case by simp
next
  case (Cons axis rest)
  show ?case
  proof (cases "m axis")
    case None
    then show ?thesis using Cons.IH [OF Cons.prems] by auto
  next
    case (Some i)
    show ?thesis
    proof (cases "assigned cs axis")
      case True
      then show ?thesis using Some Cons.IH [OF Cons.prems] by auto
    next
      case False
      let ?cs1 = "cs[i := set_metpy_axis axis (cs ! i)]"
      have e: "fst (assign_parsed (axis # rest) m cs) = fst (assign_parsed rest m ?cs1)"
        using Some False by (simp add: assign_parsed_fst assign_parsed_snd del: assign_parsed.simps)
      have l: "j < length ?cs1" using Cons.prems by simp
      have s: "metpy_axis (?cs1 ! j) = metpy_axis (cs ! j)
             \<or> (m axis = Some j \<and> metpy_axis (?cs1 ! j) = Some (cf_str axis))"
        using Some Cons.prems by (cases "i = j") (simp_all add: metpy_axis_set)
      from Cons.IH [OF l, of ] s show ?thesis
        unfolding e by auto
    qed
  qed
qed

lemma assign_parsed_writes:
  assumes "distinct axes" and "(i, a) \<in> set (snd (assign_parsed axes m cs))"
  shows "a \<in> set axes \<and> m a = Some i
       \<and> (\<forall>j<length cs. j \<noteq> i \<longrightarrow> metpy_axis (fst (assign_parsed axes m cs) ! j) \<noteq> Some (cf_str a))"
  using assms
proof (induction axes arbitrary: cs)
  case Nil
  then show ?case by simp
next
  case (Cons axis rest)
  have d: "distinct rest" and nin: "axis \<notin> set rest" using Cons.prems(1) by simp_all
  show ?case
  proof (cases "m axis")
    case None
    then show ?thesis using Cons.IH [OF d, of cs] Cons.prems(2) by auto
  next
    case (Some k)
    show ?thesis
    proof (cases "assigned cs axis")
      case True
      then show ?thesis using Some Cons.IH [OF d, of cs] Cons.prems(2) by auto
    next
      case False
      let ?cs1 = "cs[k := set_metpy_axis axis (cs ! k)]"
      have e: "fst (assign_parsed (axis # rest) m cs) = fst (assign_parsed rest m ?cs1)"
        using Some False by (simp add: assign_parsed_fst assign_parsed_snd del: assign_parsed.simps)
      have w: "snd (assign_parsed (axis # rest) m cs) = (k, axis) # snd (assign_parsed rest m ?cs1)"
        using Some False by (simp add: assign_parsed_fst assign_parsed_snd del: assign_parsed.simps)
      show ?thesis
      proof (cases "(i, a) = (k, axis)")
        case True
        have "metpy_axis (fst (assign_parsed rest m ?cs1) ! j) \<noteq> Some (cf_str axis)"
          if j: "j < length cs" "j \<noteq> k" for j
        proof -
          have l: "j < length ?cs1" using j by simp
          have "metpy_axis (?cs1 ! j) \<noteq> Some (cf_str axis)"
            using False j by (auto simp: assigned_iff)
          with assign_parsed_mark [OF l, of rest m] nin show ?thesis
            by (auto simp: cf_str_inj)
        qed
        with True Some show ?thesis unfolding e by auto
      next
        case False
        then have "(i, a) \<in> set (snd (assign_parsed rest m ?cs1))"
          using Cons.prems(2) w by auto
        from Cons.IH [OF d this] show ?thesis unfolding e by auto
      qed
    qed
  qed
qed

subsection \<open>The resolver does not read the marks\<close>

lemma criterion_key_not_mark: "criterion_key cr \<noteq> ''_metpy_axis''"
  by (cases cr) simp_all

lemma check_axis_unmarked:
  assumes "unmarked_eq c c'"
  shows "check_axis reg c axes = check_axis reg c' axes"
proof -
  have a: "attributes_match c a = attributes_match c' a" for a
    using assms
    by (simp add: attributes_match_def criterion_matches_def unmarked_eq_def)
  have e: "attrs_get c ''units'' = attrs_get c' ''units''"
    using assms by (simp add: unmarked_eq_def)
  have u: "units_match reg c a = units_match reg c' a" for a
    unfolding units_match_def units_test_def e ..
  have n: "name_matches c a = name_matches c' a" for a
    using assms by (simp add: name_matches_def unmarked_eq_def)
  show ?thesis by (simp add: check_axis_iff a u n)
qed

lemma coord_lists_same:
  assumes "same_metadata da da'"
  shows "coord_lists reg da = coord_lists reg da'"
proof
  fix axis
  have "check_axis reg (coords da ! i) (axes_to_check axis)
        = check_axis reg (coords da' ! i) (axes_to_check axis)" for i
    using assms by (intro check_axis_unmarked) (simp add: same_metadata_def)
  then show "coord_lists reg da axis = coord_lists reg da' axis"
    using assms by (simp add: coord_lists_def same_metadata_def)
qed

lemma resolve_axis_conflict_same:
  assumes "same_metadata da da'"
  shows "resolve_axis_conflict reg da axis cl = resolve_axis_conflict reg da' axis cl"
proof -
  have p: "check_axis reg (coords da ! i) [Ax, Ay] = check_axis reg (coords da' ! i) [Ax, Ay]" for i
    using assms by (intro check_axis_unmarked) (simp add: same_metadata_def)
  have d: "(name (coords da ! i) \<in> set (dims (coords da ! i)))
         = (name (coords da' ! i) \<in> set (dims (coords da' ! i)))" for i
    using assms by (simp add: same_metadata_def unmarked_eq_def)
  have n: "da_name da = da_name da'"
    using assms by (simp add: same_metadata_def)
  show ?thesis
    unfolding resolve_axis_conflict_def p d n ..
qed

lemma resolve_conflicts_same:
  assumes "same_metadata da da'"
  shows "resolve_conflicts reg da axes cl = resolve_conflicts reg da' axes cl"
proof (induction axes arbitrary: cl)
  case Nil
  show ?case by simp
next
  case (Cons axis rest)
  show ?case
    by (simp add: resolve_axis_conflict_same [OF assms] Cons.IH split: prod.splits sum.splits)
qed

lemma generate_coordinate_map_same:
  assumes "same_metadata da da'"
  shows "generate_coordinate_map reg da = generate_coordinate_map reg da'"
  unfolding generate_coordinate_map_def
  by (simp add: coord_lists_same [OF assms] resolve_conflicts_same [OF assms])

lemma assign_parsed_same:
  "same_metadata (da\<lparr>coords := fst (assign_parsed axes m (coords da))\<rparr>) da"
  by (simp add: same_metadata_def assign_parsed_length assign_parsed_unmarked)

subsection \<open>Cache misses\<close>

lemma first_index_assigned:
  "first_index (\<lambda>c. metpy_axis c = Some (cf_str cf)) cs = None \<longleftrightarrow> \<not> assigned cs cf"
  by (simp add: first_index_None assigned_def list_ex_iff)

lemma search_hit:
  assumes "first_index (\<lambda>c. metpy_axis c = Some (cf_str cf)) (coords da) = Some i"
  shows "metpy_axis_search reg da cf
         = \<lparr>result = Inr (Some i), array = da, warned = [], writes = []\<rparr>"
  using assms by (simp add: metpy_axis_search_def)

lemma search_error:
  assumes "\<not> assigned (coords da) cf" and "generate_coordinate_map reg da = (Inl e, ws)"
  shows "metpy_axis_search reg da cf
         = \<lparr>result = Inl e, array = da, warned = ws, writes = []\<rparr>"
proof -
  have "first_index (\<lambda>c. metpy_axis c = Some (cf_str cf)) (coords da) = None"
    using assms(1) by (simp add: first_index_assigned)
  then show ?thesis
    using assms(2) by (simp add: metpy_axis_search_def)
qed

lemma search_miss:
  assumes "\<not> assigned (coords da) cf" and "generate_coordinate_map reg da = (Inr m, ws)"
  shows "metpy_axis_search reg da cf
         = \<lparr>result = Inr (m cf),
            array = da\<lparr>coords := fst (assign_parsed cf_axes m (coords da))\<rparr>,
            warned = ws, writes = snd (assign_parsed cf_axes m (coords da))\<rparr>"
proof -
  have "first_index (\<lambda>c. metpy_axis c = Some (cf_str cf)) (coords da) = None"
    using assms(1) by (simp add: first_index_assigned)
  then show ?thesis
    using assms(2) by (simp add: metpy_axis_search_def split: prod.splits)
qed

lemma search_cases:
  obtains (hit) i where "first_index (\<lambda>c. metpy_axis c = Some (cf_str cf)) (coords da) = Some i"
  | (error) e ws where "\<not> assigned (coords da) cf" "generate_coordinate_map reg da = (Inl e, ws)"
  | (miss) m ws where "\<not> assigned (coords da) cf" "generate_coordinate_map reg da = (Inr m, ws)"
proof (cases "first_index (\<lambda>c. metpy_axis c = Some (cf_str cf)) (coords da)")
  case (Some i)
  then show ?thesis by (rule hit)
next
  case None
  then have n: "\<not> assigned (coords da) cf" by (simp add: first_index_assigned)
  obtain r ws where g: "generate_coordinate_map reg da = (r, ws)" by (cases "generate_coordinate_map reg da")
  show ?thesis
  proof (cases r)
    case (Inl e)
    with n g show ?thesis by (auto intro: error)
  next
    case (Inr m)
    with n g show ?thesis by (auto intro: miss)
  qed
qed

lemma distinct_cf_axes: "distinct cf_axes"
  by (simp add: cf_axes_def)

text \<open>
  Claim C1, as amended. The guard of the marking loop is per axis, not per coordinate:
  the mark of an axis is written onto the coordinate the resolver selected for it when
  no coordinate carries that mark at that moment. For every coordinate of the array, a
  lookup changes nothing but the mark; the mark afterwards is the mark before or an
  axis the resolver selected this coordinate for; and an axis written onto it during
  the lookup is carried by no other coordinate afterwards. A mark of a different axis
  on the selected coordinate is not protected (see the counterexample).
\<close>

theorem cache_miss_marks:
  assumes r: "r = metpy_axis_search reg da cf" and i: "i < length (coords da)"
  shows "length (coords (array r)) = length (coords da)
       \<and> unmarked_eq (coords (array r) ! i) (coords da ! i)
       \<and> (metpy_axis (coords (array r) ! i) = metpy_axis (coords da ! i)
          \<or> (\<exists>m a. fst (generate_coordinate_map reg da) = Inr m \<and> m a = Some i
                   \<and> metpy_axis (coords (array r) ! i) = Some (cf_str a)))
       \<and> (\<forall>a. (i, a) \<in> set (writes r) \<longrightarrow>
              (\<exists>m. fst (generate_coordinate_map reg da) = Inr m \<and> m a = Some i)
            \<and> (\<forall>j<length (coords da). j \<noteq> i \<longrightarrow>
                  metpy_axis (coords (array r) ! j) \<noteq> Some (cf_str a)))"
proof (cases rule: search_cases [where cf=cf and da=da and reg=reg])
  case (hit k)
  then have "r = \<lparr>result = Inr (Some k), array = da, warned = [], writes = []\<rparr>"
    using r by (simp add: search_hit)
  then show ?thesis by (simp add: unmarked_eq_refl)
next
  case (error e ws)
  then have "r = \<lparr>result = Inl e, array = da, warned = ws, writes = []\<rparr>"
    using r by (simp add: search_error)
  then show ?thesis by (simp add: unmarked_eq_refl)
next
  case (miss m ws)
  let ?cs = "fst (assign_parsed cf_axes m (coords da))"
  have a: "coords (array r) = ?cs" and w: "writes r = snd (assign_parsed cf_axes m (coords da))"
    using r miss by (simp_all add: search_miss)
  have g: "fst (generate_coordinate_map reg da) = Inr m"
    using miss by simp
  have 1: "length ?cs = length (coords da)"
    by (rule assign_parsed_length)
  have 2: "unmarked_eq (?cs ! i) (coords da ! i)"
    by (rule assign_parsed_unmarked)
  have 3: "metpy_axis (?cs ! i) = metpy_axis (coords da ! i)
          \<or> (\<exists>m' a. fst (generate_coordinate_map reg da) = Inr m' \<and> m' a = Some i
                   \<and> metpy_axis (?cs ! i) = Some (cf_str a))"
    using assign_parsed_mark [OF i, of cf_axes m] g by auto
  have 4: "(\<exists>m'. fst (generate_coordinate_map reg da) = Inr m' \<and> m' a = Some i)
            \<and> (\<forall>j<length (coords da). j \<noteq> i \<longrightarrow> metpy_axis (?cs ! j) \<noteq> Some (cf_str a))"
    if "(i, a) \<in> set (snd (assign_parsed cf_axes m (coords da)))" for a
    using assign_parsed_writes [OF distinct_cf_axes that] g by auto
  show ?thesis
    unfolding a w using 1 2 3 4 by blast
qed

theorem cache_miss_marks_witness:
  "0 < length (coords lat_marked_x)
   \<and> length (coords (array (metpy_axis_search reg_none lat_marked_x Y))) = length (coords lat_marked_x)
   \<and> unmarked_eq (coords (array (metpy_axis_search reg_none lat_marked_x Y)) ! 0)
        (coords lat_marked_x ! 0)
   \<and> (0, Y) \<in> set (writes (metpy_axis_search reg_none lat_marked_x Y))"
proof -
  have 1: "0 < length (coords lat_marked_x)" by (simp add: lat_marked_x_def)
  have 2: "(0, Y) \<in> set (writes (metpy_axis_search reg_none lat_marked_x Y))" by code_simp
  from cache_miss_marks [OF refl 1, where reg=reg_none and cf=Y] 1 2 show ?thesis by blast
qed

text \<open>
  Claim C1 as stated fails: the coordinate \<open>lat\<close> carries the mark \<open>X\<close>, a lookup of
  the Y axis misses the cache, the resolver selects \<open>lat\<close> for Y, no coordinate carries
  \<open>Y\<close>, and the mark \<open>X\<close> is overwritten by \<open>Y\<close>.
\<close>

theorem cache_miss_overwrites_counterexample:
  "metpy_axis (coords lat_marked_x ! 0) = Some ''X''
   \<and> \<not> assigned (coords lat_marked_x) Y
   \<and> metpy_axis (coords (array (metpy_axis_search reg_none lat_marked_x Y)) ! 0) = Some ''Y''"
  by code_simp

lemma cf_axes_split:
  "\<exists>pre. cf_axes = pre @ cf # later_axes cf \<and> cf \<notin> set pre \<and> cf \<notin> set (later_axes cf)"
proof (cases cf)
  case T
  then show ?thesis by (intro exI [of _ "[]"]) (simp add: cf_axes_def)
next
  case Z
  then show ?thesis by (intro exI [of _ "[T]"]) (simp add: cf_axes_def)
next
  case Y
  then show ?thesis by (intro exI [of _ "[T, Z]"]) (simp add: cf_axes_def)
next
  case X
  then show ?thesis by (intro exI [of _ "[T, Z, Y]"]) (simp add: cf_axes_def)
qed

text \<open>The resolver selects coordinates of the array only.\<close>

lemma coord_lists_bound: "i \<in> set (coord_lists reg da a) \<Longrightarrow> i < length (coords da)"
  by (simp add: coord_lists_def)

lemma resolve_axis_conflict_subset:
  assumes "resolve_axis_conflict reg da axis cl = (Inr cl', ws)"
  shows "set (cl' a) \<subseteq> set (cl a)"
  using assms
  by (auto simp: resolve_axis_conflict_def Let_def split: if_splits option.splits)

lemma resolve_conflicts_subset:
  assumes "resolve_conflicts reg da axes cl = (Inr cl', ws)"
  shows "set (cl' a) \<subseteq> set (cl a)"
  using assms
proof (induction axes arbitrary: cl ws)
  case Nil
  then show ?case by simp
next
  case (Cons axis rest)
  obtain r1 ws1 where s: "resolve_axis_conflict reg da axis cl = (r1, ws1)"
    by (cases "resolve_axis_conflict reg da axis cl")
  show ?case
  proof (cases r1)
    case (Inl e)
    with s Cons.prems show ?thesis by simp
  next
    case (Inr cl1)
    obtain r2 ws2 where t: "resolve_conflicts reg da rest cl1 = (r2, ws2)"
      by (cases "resolve_conflicts reg da rest cl1")
    with s Inr Cons.prems have "r2 = Inr cl'" by simp
    with t have "set (cl' a) \<subseteq> set (cl1 a)" using Cons.IH by simp
    moreover have "set (cl1 a) \<subseteq> set (cl a)"
      using s Inr resolve_axis_conflict_subset by simp
    ultimately show ?thesis by simp
  qed
qed

lemma generate_coordinate_map_bound:
  assumes "generate_coordinate_map reg da = (Inr m, ws)" and "m a = Some i"
  shows "i < length (coords da)"
proof -
  let ?cl = "coord_lists reg da"
  let ?ax = "filter (\<lambda>axis. length (?cl axis) > 1) cf_axes"
  obtain r ws' where s: "resolve_conflicts reg da ?ax ?cl = (r, ws')"
    by (cases "resolve_conflicts reg da ?ax ?cl")
  with assms(1) obtain cl' where r: "r = Inr cl'" and m: "m = collapse cl'"
    by (cases r) (auto simp: generate_coordinate_map_def Let_def)
  from assms(2) m have "i \<in> set (cl' a)"
    by (cases "cl' a") (simp_all add: collapse_def)
  with resolve_conflicts_subset [OF s [unfolded r], of a] have "i \<in> set (?cl a)" by blast
  then show ?thesis by (rule coord_lists_bound)
qed

text \<open>The marking loop, part by part.\<close>

lemma assign_parsed_append:
  "fst (assign_parsed (pre @ rest) m cs) = fst (assign_parsed rest m (fst (assign_parsed pre m cs)))"
proof (induction pre arbitrary: cs)
  case Nil
  show ?case by simp
next
  case (Cons axis pre)
  show ?case
    unfolding append_Cons assign_parsed_fst by (simp add: Cons.IH split: option.splits)
qed

lemma assign_parsed_keeps:
  assumes "j < length cs" and "\<forall>a\<in>set axes. m a \<noteq> Some j"
  shows "metpy_axis (fst (assign_parsed axes m cs) ! j) = metpy_axis (cs ! j)"
  using assign_parsed_mark [OF assms(1), of axes m] assms(2) by blast

lemma assign_parsed_other:
  assumes "j < length cs" and "cf \<notin> set axes" and "metpy_axis (cs ! j) \<noteq> Some (cf_str cf)"
  shows "metpy_axis (fst (assign_parsed axes m cs) ! j) \<noteq> Some (cf_str cf)"
  using assign_parsed_mark [OF assms(1), of axes m] assms(2,3) by (auto simp: cf_str_inj)

text \<open>
  After a lookup that missed the cache, the coordinate selected for the requested axis
  is the only one that carries its mark, unless it was selected for a later axis too.
\<close>

lemma assign_parsed_requested:
  assumes na: "\<not> assigned cs cf" and sel: "m cf = Some i" and i: "i < length cs"
    and later: "\<forall>a\<in>set (later_axes cf). m a \<noteq> Some i"
  shows "first_index (\<lambda>c. metpy_axis c = Some (cf_str cf)) (fst (assign_parsed cf_axes m cs))
         = Some i"
proof -
  obtain pre where sp: "cf_axes = pre @ cf # later_axes cf" and np: "cf \<notin> set pre"
    and nl: "cf \<notin> set (later_axes cf)"
    using cf_axes_split by blast
  let ?cs1 = "fst (assign_parsed pre m cs)"
  let ?cs2 = "?cs1[i := set_metpy_axis cf (?cs1 ! i)]"
  let ?cs3 = "fst (assign_parsed (later_axes cf) m ?cs2)"
  have l1: "length ?cs1 = length cs" by (rule assign_parsed_length)
  have l3: "length ?cs3 = length cs" by (simp add: assign_parsed_length l1)
  have n1: "metpy_axis (?cs1 ! j) \<noteq> Some (cf_str cf)" if "j < length cs" for j
  proof -
    have "metpy_axis (cs ! j) \<noteq> Some (cf_str cf)"
      using na that by (auto simp: assigned_iff)
    from assign_parsed_other [OF that np this] show ?thesis .
  qed
  then have na1: "\<not> assigned ?cs1 cf" by (auto simp: assigned_iff l1)
  have "fst (assign_parsed cf_axes m cs) = fst (assign_parsed (cf # later_axes cf) m ?cs1)"
    unfolding sp by (rule assign_parsed_append)
  also have "\<dots> = ?cs3"
    unfolding assign_parsed_fst using sel na1 by simp
  finally have e: "fst (assign_parsed cf_axes m cs) = ?cs3" .
  have i2: "i < length ?cs2" using i l1 by simp
  have "metpy_axis (?cs2 ! i) = Some (cf_str cf)"
    using i l1 by (simp add: metpy_axis_set)
  with assign_parsed_keeps [OF i2 later] have m3: "metpy_axis (?cs3 ! i) = Some (cf_str cf)"
    by simp
  have o3: "metpy_axis (?cs3 ! j) \<noteq> Some (cf_str cf)" if "j < length cs" "j \<noteq> i" for j
  proof -
    have j2: "j < length ?cs2" using that l1 by simp
    have "metpy_axis (?cs2 ! j) \<noteq> Some (cf_str cf)" using that n1 by simp
    from assign_parsed_other [OF j2 nl this] show ?thesis .
  qed
  have "\<forall>j<i. metpy_axis (?cs3 ! j) \<noteq> Some (cf_str cf)"
    using o3 i by simp
  with m3 i l3 show ?thesis
    unfolding e first_index_Some by simp
qed

text \<open>
  Claim C8, as amended. Two lookups of the same axis in a row give the same result.
  When the first lookup returns a coordinate that the resolver selected for no axis
  after the requested one (in the order T, Z, Y, X of the marking loop), that coordinate
  carries the mark of the requested axis after the first lookup, and the second lookup
  is a cache hit: it returns this coordinate, changes nothing and warns nothing. When a
  coordinate carried the mark already before the first lookup, both lookups are the same
  cache hit. In general the second lookup changes nothing and warns nothing when some
  coordinate carries the mark of the axis after the first; otherwise the resolver runs
  again and the warnings of the first lookup are emitted again.
\<close>

theorem second_lookup:
  assumes r1: "r1 = metpy_axis_search reg da cf"
    and r2: "r2 = metpy_axis_search reg (array r1) cf"
  shows "result r2 = result r1
       \<and> (result r1 = Inr (Some i) \<and> (\<forall>a\<in>set (later_axes cf). \<not> selects reg da a i) \<longrightarrow>
            metpy_axis (coords (array r1) ! i) = Some (cf_str cf)
            \<and> r2 = \<lparr>result = Inr (Some i), array = array r1, warned = [], writes = []\<rparr>)
       \<and> (assigned (coords da) cf \<longrightarrow> array r1 = da \<and> r2 = r1)
       \<and> (assigned (coords (array r1)) cf \<longrightarrow>
            array r2 = array r1 \<and> warned r2 = [] \<and> writes r2 = [])
       \<and> (\<not> assigned (coords (array r1)) cf \<longrightarrow> warned r2 = warned r1)"
proof (cases rule: search_cases [where cf=cf and da=da and reg=reg])
  case (hit k)
  then have e: "r1 = \<lparr>result = Inr (Some k), array = da, warned = [], writes = []\<rparr>"
    using r1 by (simp add: search_hit)
  then have "r2 = r1" using r1 r2 by simp
  moreover have "metpy_axis (coords da ! k) = Some (cf_str cf)"
    using hit by (simp add: first_index_Some)
  ultimately show ?thesis using e by auto
next
  case (error e ws)
  then have e: "r1 = \<lparr>result = Inl e, array = da, warned = ws, writes = []\<rparr>"
    using r1 by (simp add: search_error)
  then have "r2 = r1" using r1 r2 by simp
  with e error(1) show ?thesis by simp
next
  case (miss m ws)
  let ?cs = "fst (assign_parsed cf_axes m (coords da))"
  let ?da = "da\<lparr>coords := ?cs\<rparr>"
  have e1: "r1 = \<lparr>result = Inr (m cf), array = ?da, warned = ws,
                  writes = snd (assign_parsed cf_axes m (coords da))\<rparr>"
    using r1 miss by (simp add: search_miss)
  have "same_metadata ?da da"
    by (rule assign_parsed_same)
  then have "generate_coordinate_map reg ?da = generate_coordinate_map reg da"
    by (rule generate_coordinate_map_same)
  then have g: "generate_coordinate_map reg ?da = (Inr m, ws)"
    using miss(2) by simp
  have sel: "selects reg da a j \<longleftrightarrow> m a = Some j" for a j
    using miss(2) by (simp add: selects_def)
  have 1: "result r2 = result r1
         \<and> (assigned (coords (array r1)) cf \<longrightarrow>
              array r2 = array r1 \<and> warned r2 = [] \<and> writes r2 = [])
         \<and> (\<not> assigned (coords (array r1)) cf \<longrightarrow> warned r2 = warned r1)"
  proof (cases rule: search_cases [where cf=cf and da="?da" and reg=reg])
    case (hit k)
    then have k: "k < length ?cs" "metpy_axis (?cs ! k) = Some (cf_str cf)"
      by (simp_all add: first_index_Some)
    then have k': "k < length (coords da)" by (simp add: assign_parsed_length)
    have "metpy_axis (coords da ! k) \<noteq> Some (cf_str cf)"
      using miss(1) k' by (auto simp: assigned_iff)
    with assign_parsed_mark [OF k', of cf_axes m] k(2) have "m cf = Some k"
      by (auto simp: cf_str_inj)
    moreover have "r2 = \<lparr>result = Inr (Some k), array = ?da, warned = [], writes = []\<rparr>"
      using r2 e1 hit by (simp add: search_hit)
    moreover have "assigned ?cs cf"
      using hit first_index_assigned [of cf ?cs] by simp
    ultimately show ?thesis using e1 by simp
  next
    case (error e' ws')
    with g show ?thesis by simp
  next
    case (miss m' ws')
    with g have "m' = m" "ws' = ws" by simp_all
    with miss have "result r2 = Inr (m cf)" "warned r2 = ws"
      using r2 e1 by (simp_all add: search_miss)
    with e1 miss(1) show ?thesis by simp
  qed
  have 2: "metpy_axis (coords (array r1) ! i) = Some (cf_str cf)
         \<and> r2 = \<lparr>result = Inr (Some i), array = array r1, warned = [], writes = []\<rparr>"
    if s: "result r1 = Inr (Some i)" and l: "\<forall>a\<in>set (later_axes cf). \<not> selects reg da a i"
  proof -
    have mi: "m cf = Some i" using s e1 by simp
    have i: "i < length (coords da)"
      by (rule generate_coordinate_map_bound [OF miss(2) mi])
    have later: "\<forall>a\<in>set (later_axes cf). m a \<noteq> Some i"
      using l sel by simp
    have f: "first_index (\<lambda>c. metpy_axis c = Some (cf_str cf)) ?cs = Some i"
      by (rule assign_parsed_requested [OF miss(1) mi i later])
    then have "metpy_axis (?cs ! i) = Some (cf_str cf)"
      by (simp add: first_index_Some)
    moreover have "r2 = \<lparr>result = Inr (Some i), array = ?da, warned = [], writes = []\<rparr>"
      using r2 e1 f by (simp add: search_hit)
    ultimately show ?thesis using e1 by simp
  qed
  have 3: "assigned (coords da) cf \<longrightarrow> array r1 = da \<and> r2 = r1"
    using miss(1) by simp
  from 1 2 3 show ?thesis by blast
qed

text \<open>
  Three pairs of lookups. The time axis of an array with the coordinates \<open>time\<close> and
  \<open>pressure\<close>: the first lookup misses the cache and marks \<open>time\<close>, the second one is a
  hit. The vertical axis of an array with a marked coordinate: both lookups are the same
  hit. The Y axis of an array with two latitude coordinates that cannot be told apart:
  no mark is written, and the second lookup warns again.
\<close>

theorem second_lookup_witness:
  "result (metpy_axis_search reg_none time_pressure T) = Inr (Some 0)
   \<and> \<not> assigned (coords time_pressure) T
   \<and> \<not> selects reg_none time_pressure Z 0
   \<and> \<not> selects reg_none time_pressure Y 0
   \<and> \<not> selects reg_none time_pressure X 0
   \<and> metpy_axis (coords (array (metpy_axis_search reg_none time_pressure T)) ! 0) = Some ''T''
   \<and> metpy_axis_search reg_none (array (metpy_axis_search reg_none time_pressure T)) T
       = \<lparr>result = Inr (Some 0), array = array (metpy_axis_search reg_none time_pressure T),
          warned = [], writes = []\<rparr>
   \<and> assigned (coords foo_bar_marked) Z
   \<and> array (metpy_axis_search reg_none foo_bar_marked Z) = foo_bar_marked
   \<and> metpy_axis_search reg_none (array (metpy_axis_search reg_none foo_bar_marked Z)) Z
       = metpy_axis_search reg_none foo_bar_marked Z
   \<and> \<not> assigned (coords (array (metpy_axis_search reg_none lat_pair Y))) Y
   \<and> warned (metpy_axis_search reg_none lat_pair Y) = [ambiguous_message Y ''temperature'']
   \<and> warned (metpy_axis_search reg_none (array (metpy_axis_search reg_none lat_pair Y)) Y)
       = warned (metpy_axis_search reg_none lat_pair Y)"
proof -
  have 1: "result (metpy_axis_search reg_none time_pressure T) = Inr (Some 0)" by code_simp
  have 2: "\<not> assigned (coords time_pressure) T" by code_simp
  have 3: "\<not> selects reg_none time_pressure Z 0" by code_simp
  have 4: "\<not> selects reg_none time_pressure Y 0" by code_simp
  have 5: "\<not> selects reg_none time_pressure X 0" by code_simp
  have l: "\<forall>a\<in>set (later_axes T). \<not> selects reg_none time_pressure a 0"
    using 3 4 5 by simp
  note t = second_lookup [OF refl refl, where reg = reg_none and da = time_pressure and cf = T
      and i = 0]
  from t have "result (metpy_axis_search reg_none time_pressure T) = Inr (Some 0)
         \<and> (\<forall>a\<in>set (later_axes T). \<not> selects reg_none time_pressure a 0) \<longrightarrow>
         metpy_axis (coords (array (metpy_axis_search reg_none time_pressure T)) ! 0)
           = Some (cf_str T)
         \<and> metpy_axis_search reg_none (array (metpy_axis_search reg_none time_pressure T)) T
           = \<lparr>result = Inr (Some 0), array = array (metpy_axis_search reg_none time_pressure T),
              warned = [], writes = []\<rparr>"
    by (rule conjunct2 [THEN conjunct1])
  with 1 l have a: "metpy_axis (coords (array (metpy_axis_search reg_none time_pressure T)) ! 0)
           = Some (cf_str T)
         \<and> metpy_axis_search reg_none (array (metpy_axis_search reg_none time_pressure T)) T
           = \<lparr>result = Inr (Some 0), array = array (metpy_axis_search reg_none time_pressure T),
              warned = [], writes = []\<rparr>"
    by (rule_tac mp) (assumption, intro conjI)
  have 6: "assigned (coords foo_bar_marked) Z" by code_simp
  note u = second_lookup [OF refl refl, where reg = reg_none and da = foo_bar_marked and cf = Z
      and i = 0]
  from u have "assigned (coords foo_bar_marked) Z \<longrightarrow>
         array (metpy_axis_search reg_none foo_bar_marked Z) = foo_bar_marked
         \<and> metpy_axis_search reg_none (array (metpy_axis_search reg_none foo_bar_marked Z)) Z
           = metpy_axis_search reg_none foo_bar_marked Z"
    by (rule conjunct2 [THEN conjunct2, THEN conjunct1])
  with 6 have b: "array (metpy_axis_search reg_none foo_bar_marked Z) = foo_bar_marked
         \<and> metpy_axis_search reg_none (array (metpy_axis_search reg_none foo_bar_marked Z)) Z
           = metpy_axis_search reg_none foo_bar_marked Z"
    by (rule_tac mp)
  have 7: "\<not> assigned (coords (array (metpy_axis_search reg_none lat_pair Y))) Y" by code_simp
  have 8: "warned (metpy_axis_search reg_none lat_pair Y) = [ambiguous_message Y ''temperature'']"
    by code_simp
  note v = second_lookup [OF refl refl, where reg = reg_none and da = lat_pair and cf = Y
      and i = 0]
  from v have "\<not> assigned (coords (array (metpy_axis_search reg_none lat_pair Y))) Y \<longrightarrow>
         warned (metpy_axis_search reg_none (array (metpy_axis_search reg_none lat_pair Y)) Y)
           = warned (metpy_axis_search reg_none lat_pair Y)"
    by (rule conjunct2 [THEN conjunct2, THEN conjunct2, THEN conjunct2])
  with 7 have c: "warned (metpy_axis_search reg_none (array (metpy_axis_search reg_none lat_pair Y)) Y)
           = warned (metpy_axis_search reg_none lat_pair Y)"
    by (rule_tac mp)
  from a have a1: "metpy_axis (coords (array (metpy_axis_search reg_none time_pressure T)) ! 0)
           = Some ''T''" by simp
  from a have a2: "metpy_axis_search reg_none (array (metpy_axis_search reg_none time_pressure T)) T
       = \<lparr>result = Inr (Some 0), array = array (metpy_axis_search reg_none time_pressure T),
          warned = [], writes = []\<rparr>" by (rule conjunct2)
  from b have b1: "array (metpy_axis_search reg_none foo_bar_marked Z) = foo_bar_marked"
    by (rule conjunct1)
  from b have b2: "metpy_axis_search reg_none (array (metpy_axis_search reg_none foo_bar_marked Z)) Z
           = metpy_axis_search reg_none foo_bar_marked Z"
    by (rule conjunct2)
  from 1 2 3 4 5 a1 a2 6 b1 b2 7 8 c show ?thesis by (intro conjI)
qed

text \<open>
  Claim C8 as stated fails: \<open>XLAT\<close> is selected for Y and for X, the mark \<open>Y\<close> is
  replaced by \<open>X\<close> in the same lookup, so the second lookup of Y misses the cache
  again and writes both marks again.
\<close>

theorem lookup_twice_counterexample:
  "result (metpy_axis_search reg_none xlat_only Y) = Inr (Some 0)
   \<and> \<not> assigned (coords (array (metpy_axis_search reg_none xlat_only Y))) Y
   \<and> writes (metpy_axis_search reg_none (array (metpy_axis_search reg_none xlat_only Y)) Y)
       = [(0, Y), (0, X)]"
  by code_simp

subsection \<open>Ambiguous axes\<close>

lemma resolve_axis_conflict_named:
  assumes "da_name da = Some n"
  shows "resolve_axis_conflict reg da axis cl =
     (case preferred reg da axis (cl axis) of
        Some sel \<Rightarrow> (Inr (cl(axis := sel)), [])
      | None \<Rightarrow> (Inr (cl(axis := [])), [ambiguous_message axis n]))"
  using assms
  by (simp add: resolve_axis_conflict_def preferred_def projection_coords_def
      dimension_coords_def Let_def)

lemma resolve_conflicts_named:
  assumes "da_name da = Some n" and "distinct axes"
  shows "resolve_conflicts reg da axes cl =
     (Inr (\<lambda>a. if a \<in> set axes
               then (case preferred reg da a (cl a) of Some sel \<Rightarrow> sel | None \<Rightarrow> [])
               else cl a),
      concat (map (\<lambda>a. case preferred reg da a (cl a) of
                          Some sel \<Rightarrow> [] | None \<Rightarrow> [ambiguous_message a n]) axes))"
  using assms(2)
proof (induction axes arbitrary: cl)
  case Nil
  show ?case by simp
next
  case (Cons axis rest)
  have d: "distinct rest" and nin: "axis \<notin> set rest" using Cons.prems by simp_all
  show ?case
  proof (cases "preferred reg da axis (cl axis)")
    case None
    have p: "preferred reg da a ((cl(axis := [])) a) = preferred reg da a (cl a)"
      if "a \<in> set rest" for a
      using that nin by auto
    have f: "(\<lambda>a. if a \<in> set rest
               then (case preferred reg da a ((cl(axis := [])) a) of Some sel \<Rightarrow> sel | None \<Rightarrow> [])
               else (cl(axis := [])) a)
           = (\<lambda>a. if a \<in> set (axis # rest)
               then (case preferred reg da a (cl a) of Some sel \<Rightarrow> sel | None \<Rightarrow> [])
               else cl a)"
      using None nin by (auto simp: fun_eq_iff)
    have w: "map (\<lambda>a. case preferred reg da a ((cl(axis := [])) a) of
                          Some sel \<Rightarrow> [] | None \<Rightarrow> [ambiguous_message a n]) rest
           = map (\<lambda>a. case preferred reg da a (cl a) of
                          Some sel \<Rightarrow> [] | None \<Rightarrow> [ambiguous_message a n]) rest"
      using nin by (intro map_cong) auto
    have step: "resolve_conflicts reg da (axis # rest) cl
                = (case resolve_conflicts reg da rest (cl(axis := [])) of
                     (r, ws') \<Rightarrow> (r, [ambiguous_message axis n] @ ws'))"
      by (simp add: resolve_axis_conflict_named [OF assms(1)] None)
    show ?thesis
      unfolding step Cons.IH [OF d] f w using None by simp
  next
    case (Some sel)
    have f: "(\<lambda>a. if a \<in> set rest
               then (case preferred reg da a ((cl(axis := sel)) a) of Some sel \<Rightarrow> sel | None \<Rightarrow> [])
               else (cl(axis := sel)) a)
           = (\<lambda>a. if a \<in> set (axis # rest)
               then (case preferred reg da a (cl a) of Some sel \<Rightarrow> sel | None \<Rightarrow> [])
               else cl a)"
      using Some nin by (auto simp: fun_eq_iff)
    have w: "map (\<lambda>a. case preferred reg da a ((cl(axis := sel)) a) of
                          Some sel \<Rightarrow> [] | None \<Rightarrow> [ambiguous_message a n]) rest
           = map (\<lambda>a. case preferred reg da a (cl a) of
                          Some sel \<Rightarrow> [] | None \<Rightarrow> [ambiguous_message a n]) rest"
      using nin by (intro map_cong) auto
    have step: "resolve_conflicts reg da (axis # rest) cl
                = (case resolve_conflicts reg da rest (cl(axis := sel)) of
                     (r, ws') \<Rightarrow> (r, [] @ ws'))"
      by (simp add: resolve_axis_conflict_named [OF assms(1)] Some)
    show ?thesis
      unfolding step Cons.IH [OF d] f w using Some by simp
  qed
qed

lemma generate_coordinate_map_named:
  assumes "da_name da = Some n"
  shows "generate_coordinate_map reg da =
     (Inr (collapse (resolved reg da)),
      concat (map (\<lambda>a. if ambiguous reg da a then [ambiguous_message a n] else []) cf_axes))"
proof -
  let ?cl = "coord_lists reg da"
  let ?conf = "filter (\<lambda>axis. length (?cl axis) > 1) cf_axes"
  have d: "distinct ?conf" by (simp add: cf_axes_def)
  have m: "(\<lambda>a. if a \<in> set ?conf
               then (case preferred reg da a (?cl a) of Some sel \<Rightarrow> sel | None \<Rightarrow> [])
               else ?cl a) = resolved reg da"
  proof
    fix a
    have "a \<in> set cf_axes" by (cases a) (simp_all add: cf_axes_def)
    then show "(if a \<in> set ?conf
               then (case preferred reg da a (?cl a) of Some sel \<Rightarrow> sel | None \<Rightarrow> [])
               else ?cl a) = resolved reg da a"
      by (simp add: resolved_def)
  qed
  have w: "concat (map (\<lambda>a. case preferred reg da a (?cl a) of
                          Some sel \<Rightarrow> [] | None \<Rightarrow> [ambiguous_message a n]) ?conf)
         = concat (map (\<lambda>a. if ambiguous reg da a then [ambiguous_message a n] else []) cf_axes)"
    by (simp add: cf_axes_def ambiguous_def split: option.splits)
  show ?thesis
    unfolding generate_coordinate_map_def Let_def
      resolve_conflicts_named [OF assms d] m w by simp
qed

lemma ambiguous_message_inj: "ambiguous_message a n = ambiguous_message b n \<longleftrightarrow> a = b"
  by (cases a; cases b) (simp_all add: ambiguous_message_def)

lemma readable_cf: "map_of readable_to_cf_axes (cf_to_readable_axes cf) = Some cf"
  by (cases cf) (simp_all add: readable_to_cf_axes_def)

lemma count_messages:
  "count_list (concat (map (\<lambda>a. if ambiguous reg da a then [ambiguous_message a n] else []) cf_axes))
     (ambiguous_message cf n) = (if ambiguous reg da cf then 1 else 0)"
  by (cases cf) (simp_all add: cf_axes_def ambiguous_message_inj)

lemma resolved_ambiguous: "ambiguous reg da cf \<Longrightarrow> collapse (resolved reg da) cf = None"
  by (simp add: ambiguous_def resolved_def collapse_def)

lemma get_axis_absent:
  assumes "result (metpy_axis_search reg da cf) = Inr None"
  shows "result (get_axis reg da (cf_to_readable_axes cf))
         = Inl (AttributeError (cf_to_readable_axes cf @ '' attribute is not available.''))"
  using assms by (simp add: get_axis_def readable_cf Let_def)

text \<open>
  For a named array and a horizontal axis with two or more candidates, the coordinate
  map follows the three rules: a single projection coordinate is selected without a
  warning; otherwise a single dimension coordinate is selected without a warning;
  otherwise no coordinate is selected and the warning for this axis is emitted once.
\<close>

lemma horizontal_conflict_named:
  assumes n: "da_name da = Some n"
    and h: "axis = Y \<or> axis = X"
    and c: "length (coord_lists reg da axis) > 1"
  shows "\<exists>m ws. generate_coordinate_map reg da = (Inr m, ws)
       \<and> (projection_coords reg da (coord_lists reg da axis) = [i] \<longrightarrow>
             m axis = Some i \<and> count_list ws (ambiguous_message axis n) = 0)
       \<and> (length (projection_coords reg da (coord_lists reg da axis)) \<noteq> 1
            \<and> dimension_coords da (coord_lists reg da axis) = [i] \<longrightarrow>
             m axis = Some i \<and> count_list ws (ambiguous_message axis n) = 0)
       \<and> (length (projection_coords reg da (coord_lists reg da axis)) \<noteq> 1
            \<and> length (dimension_coords da (coord_lists reg da axis)) \<noteq> 1 \<longrightarrow>
             m axis = None \<and> count_list ws (ambiguous_message axis n) = 1)"
proof -
  let ?cands = "coord_lists reg da axis"
  let ?m = "collapse (resolved reg da)"
  let ?ws = "concat (map (\<lambda>a. if ambiguous reg da a then [ambiguous_message a n] else []) cf_axes)"
  have g: "generate_coordinate_map reg da = (Inr ?m, ?ws)"
    by (rule generate_coordinate_map_named [OF n])
  have cnt: "count_list ?ws (ambiguous_message axis n) = (if ambiguous reg da axis then 1 else 0)"
    by (rule count_messages)
  have p: "?m axis = Some i \<and> \<not> ambiguous reg da axis"
    if "projection_coords reg da ?cands = [i]"
    using that h c by (simp add: ambiguous_def preferred_def resolved_def collapse_def)
  have d: "?m axis = Some i \<and> \<not> ambiguous reg da axis"
    if "length (projection_coords reg da ?cands) \<noteq> 1" "dimension_coords da ?cands = [i]"
    using that h c by (simp add: ambiguous_def preferred_def resolved_def collapse_def)
  have a: "?m axis = None \<and> ambiguous reg da axis"
    if "length (projection_coords reg da ?cands) \<noteq> 1" "length (dimension_coords da ?cands) \<noteq> 1"
    using that h c by (simp add: ambiguous_def preferred_def resolved_def collapse_def)
  show ?thesis
    using g cnt p d a by (intro exI [of _ ?m] exI [of _ ?ws]) simp
qed

text \<open>
  Claim C2 at the failing input: for the unnamed array with two latitude candidates,
  none a projection coordinate or a dimension coordinate, \<open>_resolve_axis_conflict\<close>
  raises \<open>TypeError\<close> while building the warning message, and so does
  \<open>_generate_coordinate_map\<close>; no warning is emitted.
\<close>

theorem unnamed_conflict_raises:
  "coord_lists reg_none lat_pair_unnamed Y = [0, 1]
   \<and> (case resolve_axis_conflict reg_none lat_pair_unnamed Y (coord_lists reg_none lat_pair_unnamed) of
        (Inl e, ws) \<Rightarrow> e = TypeError \<and> ws = []
      | (Inr cl, ws) \<Rightarrow> False)
   \<and> (case generate_coordinate_map reg_none lat_pair_unnamed of
        (Inl e, ws) \<Rightarrow> e = TypeError \<and> ws = []
      | (Inr coord_map, ws) \<Rightarrow> False)"
  by code_simp

text \<open>
  The request for the \<open>y\<close> axis of that array ends with the same \<open>TypeError\<close>.
\<close>

theorem unnamed_ambiguous_axis_raises:
  "get_axis reg_none lat_pair_unnamed ''y''
     = \<lparr>result = Inl TypeError, array = lat_pair_unnamed, warned = [], writes = []\<rparr>"
  by code_simp

text \<open>
  Claim C6, as amended. On a named array, whenever a lookup runs the resolver and an
  axis is left ambiguous, the warning for that axis is emitted once, the lookup writes
  no mark of that axis, and no coordinate carries the mark of that axis afterwards
  unless it carried it before. If the ambiguous axis is the requested one, the request
  raises the \<open>AttributeError\<close> ``attribute is not available''; so does a later request
  for that axis, provided no coordinate carries its mark.
\<close>

theorem ambiguous_axis_named:
  assumes n: "da_name da = Some n"
    and amb: "ambiguous reg da cf"
    and miss: "\<not> assigned (coords da) requested"
    and r: "r = metpy_axis_search reg da requested"
  shows "count_list (warned r) (ambiguous_message cf n) = 1
       \<and> (\<forall>i. (i, cf) \<notin> set (writes r))
       \<and> (\<forall>i<length (coords da).
             metpy_axis (coords (array r) ! i) = Some (cf_str cf) \<longrightarrow>
             metpy_axis (coords da ! i) = Some (cf_str cf))
       \<and> (requested = cf \<longrightarrow>
             result (get_axis reg da (cf_to_readable_axes cf))
             = Inl (AttributeError (cf_to_readable_axes cf @ '' attribute is not available.'')))
       \<and> (\<not> assigned (coords (array r)) cf \<longrightarrow>
             result (get_axis reg (array r) (cf_to_readable_axes cf))
             = Inl (AttributeError (cf_to_readable_axes cf @ '' attribute is not available.'')))
       \<and> (assigned (coords (array r)) cf \<longrightarrow>
             (\<exists>i. result (get_axis reg (array r) (cf_to_readable_axes cf)) = Inr i))
       \<and> (\<exists>m. fst (generate_coordinate_map reg da) = Inr m \<and> m cf = None)"
proof -
  let ?m = "collapse (resolved reg da)"
  let ?ws = "concat (map (\<lambda>a. if ambiguous reg da a then [ambiguous_message a n] else []) cf_axes)"
  let ?cs = "fst (assign_parsed cf_axes ?m (coords da))"
  let ?da = "da\<lparr>coords := ?cs\<rparr>"
  have g: "generate_coordinate_map reg da = (Inr ?m, ?ws)"
    by (rule generate_coordinate_map_named [OF n])
  have none: "?m cf = None"
    by (rule resolved_ambiguous [OF amb])
  have e: "r = \<lparr>result = Inr (?m requested), array = ?da, warned = ?ws,
               writes = snd (assign_parsed cf_axes ?m (coords da))\<rparr>"
    unfolding r by (rule search_miss [OF miss g])
  have 1: "count_list (warned r) (ambiguous_message cf n) = 1"
    using amb by (simp add: e count_messages)
  have 2: "(i, cf) \<notin> set (writes r)" for i
  proof
    assume "(i, cf) \<in> set (writes r)"
    then have "(i, cf) \<in> set (snd (assign_parsed cf_axes ?m (coords da)))" by (simp add: e)
    from assign_parsed_writes [OF distinct_cf_axes this] none show False by simp
  qed
  have 3: "metpy_axis (coords da ! i) = Some (cf_str cf)"
    if "i < length (coords da)" "metpy_axis (coords (array r) ! i) = Some (cf_str cf)" for i
    using assign_parsed_mark [OF that(1), of cf_axes ?m] that(2) none
    by (auto simp: e cf_str_inj)
  have 4: "result (get_axis reg da (cf_to_readable_axes cf))
             = Inl (AttributeError (cf_to_readable_axes cf @ '' attribute is not available.''))"
    if "requested = cf"
  proof -
    have "result (metpy_axis_search reg da cf) = Inr None"
      using e r that none by simp
    then show ?thesis by (rule get_axis_absent)
  qed
  have 5: "result (get_axis reg (array r) (cf_to_readable_axes cf))
             = Inl (AttributeError (cf_to_readable_axes cf @ '' attribute is not available.''))"
    if na: "\<not> assigned (coords (array r)) cf"
  proof -
    have "same_metadata ?da da" by (rule assign_parsed_same)
    then have "generate_coordinate_map reg ?da = generate_coordinate_map reg da"
      by (rule generate_coordinate_map_same)
    with g have g': "generate_coordinate_map reg ?da = (Inr ?m, ?ws)" by simp
    have na': "\<not> assigned (coords ?da) cf" using na by (simp add: e)
    have "result (metpy_axis_search reg ?da cf) = Inr None"
      using search_miss [OF na' g'] none by simp
    then have "result (get_axis reg ?da (cf_to_readable_axes cf))
             = Inl (AttributeError (cf_to_readable_axes cf @ '' attribute is not available.''))"
      by (rule get_axis_absent)
    then show ?thesis by (simp add: e)
  qed
  have 6: "\<exists>i. result (get_axis reg (array r) (cf_to_readable_axes cf)) = Inr i"
    if a: "assigned (coords (array r)) cf"
  proof -
    obtain i where
      "first_index (\<lambda>c. metpy_axis c = Some (cf_str cf)) (coords (array r)) = Some i"
      using a first_index_assigned [of cf "coords (array r)"] by auto
    then have "result (metpy_axis_search reg (array r) cf) = Inr (Some i)"
      by (simp add: search_hit)
    then show ?thesis
      by (simp add: get_axis_def readable_cf Let_def)
  qed
  have 7: "\<exists>m. fst (generate_coordinate_map reg da) = Inr m \<and> m cf = None"
    using g none by simp
  from 1 2 3 4 5 6 7 show ?thesis by blast
qed

theorem ambiguous_axis_named_witness:
  "da_name lat_pair = Some ''temperature''
   \<and> ambiguous reg_none lat_pair Y
   \<and> \<not> assigned (coords lat_pair) Y
   \<and> count_list (warned (metpy_axis_search reg_none lat_pair Y))
        (ambiguous_message Y ''temperature'') = 1
   \<and> result (get_axis reg_none lat_pair ''y'')
       = Inl (AttributeError ''y attribute is not available.'')"
proof -
  have 1: "da_name lat_pair = Some ''temperature''" by (simp add: lat_pair_def)
  have 2: "ambiguous reg_none lat_pair Y" by code_simp
  have 3: "\<not> assigned (coords lat_pair) Y" by code_simp
  from ambiguous_axis_named [OF 1 2 3 refl] 1 2 3 show ?thesis by simp
qed

text \<open>
  Claim C6 as stated fails: \<open>lat1\<close> was assigned to Y by hand; a request for the time
  axis runs the resolver, which warns that Y is ambiguous; the later request for the
  \<open>y\<close> axis is a cache hit and returns \<open>lat1\<close>.
\<close>

theorem ambiguous_axis_marked_counterexample:
  "ambiguous reg_none lat_pair_marked Y
   \<and> warned (get_axis reg_none lat_pair_marked ''time'')
       = [ambiguous_message Y ''temperature'']
   \<and> result (get_axis reg_none (array (get_axis reg_none lat_pair_marked ''time'')) ''y'')
       = Inr 0"
  by code_simp


subsection \<open>Axis identifiers\<close>

text \<open>
  A string that is no axis type passed to \<open>_axis\<close> (as \<open>coordinates\<close> does) raises
  \<open>AttributeError\<close>, without any effect.
\<close>

lemma get_axis_uninterpretable:
  assumes "s \<notin> set (map fst readable_to_cf_axes)"
  shows "get_axis reg da s
         = \<lparr>result = Inl (AttributeError ([CHR 0x27] @ s @ [CHR 0x27]
                                          @ '' is not an interpretable axis.'')),
            array = da, warned = [], writes = []\<rparr>"
proof -
  have "map_of readable_to_cf_axes s = None"
    using assms by (simp add: map_of_eq_None_iff)
  then show ?thesis by (simp add: get_axis_def)
qed

text \<open>\<open>dims[axis]\<close> for an axis number, in one formula.\<close>

lemma tuple_get_mod:
  "tuple_get xs n
   = (if - int (length xs) \<le> n \<and> n < int (length xs)
      then Inr (xs ! nat (n mod int (length xs))) else Inl IndexError)"
proof (cases "0 \<le> n")
  case True
  then show ?thesis by (simp add: tuple_get_def)
next
  case False
  then have n: "n < 0" by simp
  show ?thesis
  proof (cases "- int (length xs) \<le> n")
    case True
    have "(n + int (length xs)) mod int (length xs) = n + int (length xs)"
      using True n by (intro mod_pos_pos_trivial) simp_all
    then have "n mod int (length xs) = int (length xs) + n"
      by (simp add: add.commute)
    with True n show ?thesis by (simp add: tuple_get_def)
  next
    case False
    with n show ?thesis by (simp add: tuple_get_def)
  qed
qed

text \<open>
  Claim C7, as amended. A string identifier that is not one of \<open>time\<close>, \<open>vertical\<close>,
  \<open>y\<close>, \<open>x\<close> and is not both a dimension and a coordinate of the array makes
  \<open>find_axis_name\<close> raise \<open>ValueError\<close> and makes \<open>_axis\<close> raise \<open>AttributeError\<close>. An
  axis number is no such error: \<open>find_axis_name\<close> returns the dimension at that position,
  a negative number counting from the end, and raises \<open>IndexError\<close> when the number is
  out of range. In all these cases the array is left as it was, nothing is warned and no
  mark is written.
\<close>

theorem invalid_axis_identifier:
  assumes "s \<notin> set (map fst readable_to_cf_axes)"
    and "\<not> (s \<in> set (da_dims da) \<and> s \<in> set (map name (coords da)))"
  shows "find_axis_name reg da (Named s)
         = \<lparr>result = Inl ValueError, array = da, warned = [], writes = []\<rparr>
       \<and> get_axis reg da s
         = \<lparr>result = Inl (AttributeError ([CHR 0x27] @ s @ [CHR 0x27]
                                          @ '' is not an interpretable axis.'')),
            array = da, warned = [], writes = []\<rparr>
       \<and> find_axis_name reg da (Number n)
         = \<lparr>result = (if - int (length (da_dims da)) \<le> n \<and> n < int (length (da_dims da))
                      then Inr (da_dims da ! nat (n mod int (length (da_dims da))))
                      else Inl IndexError),
            array = da, warned = [], writes = []\<rparr>"
proof -
  have 1: "find_axis_name reg da (Named s)
           = \<lparr>result = Inl ValueError, array = da, warned = [], writes = []\<rparr>"
    using assms by (simp add: find_axis_name_def)
  have 2: "get_axis reg da s
         = \<lparr>result = Inl (AttributeError ([CHR 0x27] @ s @ [CHR 0x27]
                                          @ '' is not an interpretable axis.'')),
            array = da, warned = [], writes = []\<rparr>"
    using assms(1) by (rule get_axis_uninterpretable)
  have 3: "find_axis_name reg da (Number n)
         = \<lparr>result = (if - int (length (da_dims da)) \<le> n \<and> n < int (length (da_dims da))
                      then Inr (da_dims da ! nat (n mod int (length (da_dims da))))
                      else Inl IndexError),
            array = da, warned = [], writes = []\<rparr>"
    by (simp add: find_axis_name_def tuple_get_mod)
  from 1 2 3 show ?thesis by (intro conjI)
qed

theorem invalid_axis_identifier_witness:
  "''foo'' \<notin> set (map fst readable_to_cf_axes)
   \<and> \<not> (''foo'' \<in> set (da_dims time_pressure) \<and> ''foo'' \<in> set (map name (coords time_pressure)))
   \<and> find_axis_name reg_none time_pressure (Named ''foo'')
       = \<lparr>result = Inl ValueError, array = time_pressure, warned = [], writes = []\<rparr>
   \<and> get_axis reg_none time_pressure ''foo''
       = \<lparr>result = Inl (AttributeError ([CHR 0x27] @ ''foo'' @ [CHR 0x27]
                                          @ '' is not an interpretable axis.'')),
          array = time_pressure, warned = [], writes = []\<rparr>
   \<and> find_axis_name reg_none time_pressure (Number 5)
       = \<lparr>result = Inl IndexError, array = time_pressure, warned = [], writes = []\<rparr>"
proof -
  have 1: "''foo'' \<notin> set (map fst readable_to_cf_axes)"
    by (simp add: readable_to_cf_axes_def)
  have 2: "\<not> (''foo'' \<in> set (da_dims time_pressure)
              \<and> ''foo'' \<in> set (map name (coords time_pressure)))"
    by (simp add: time_pressure_def)
  have 3: "\<not> (- int (length (da_dims time_pressure)) \<le> 5 \<and> 5 < int (length (da_dims time_pressure)))"
    by (simp add: time_pressure_def)
  note t = invalid_axis_identifier [OF 1 2, where reg = reg_none and n = 5]
  have a: "find_axis_name reg_none time_pressure (Named ''foo'')
       = \<lparr>result = Inl ValueError, array = time_pressure, warned = [], writes = []\<rparr>"
    using t by (rule conjunct1)
  have b: "get_axis reg_none time_pressure ''foo''
       = \<lparr>result = Inl (AttributeError ([CHR 0x27] @ ''foo'' @ [CHR 0x27]
                                          @ '' is not an interpretable axis.'')),
          array = time_pressure, warned = [], writes = []\<rparr>"
    using t by (rule conjunct2 [THEN conjunct1])
  have "find_axis_name reg_none time_pressure (Number 5)
         = \<lparr>result = (if - int (length (da_dims time_pressure)) \<le> 5
                          \<and> 5 < int (length (da_dims time_pressure))
                      then Inr (da_dims time_pressure ! nat (5 mod int (length (da_dims time_pressure))))
                      else Inl IndexError),
            array = time_pressure, warned = [], writes = []\<rparr>"
    using t by (rule conjunct2 [THEN conjunct2])
  then have c: "find_axis_name reg_none time_pressure (Number 5)
       = \<lparr>result = Inl IndexError, array = time_pressure, warned = [], writes = []\<rparr>"
    using 3 by simp
  from 1 2 a b c show ?thesis by (intro conjI)
qed

text \<open>
  Claim C7 as stated fails: the axis numbers 0 and -1 are neither axis types nor names
  of the array, and \<open>find_axis_name\<close> returns a dimension for them; and the error that
  \<open>_axis\<close> raises for the string \<open>foo\<close> is an \<open>AttributeError\<close>, not a \<open>ValueError\<close>.
\<close>

theorem axis_number_counterexample:
  "result (find_axis_name reg_none time_pressure (Number 0)) = Inr ''time''
   \<and> result (find_axis_name reg_none time_pressure (Number (- 1))) = Inr ''pressure''
   \<and> result (get_axis reg_none time_pressure ''foo'')
       = Inl (AttributeError ([CHR 0x27] @ ''foo'' @ [CHR 0x27] @ '' is not an interpretable axis.''))
   \<and> result (get_axis reg_none time_pressure ''foo'') \<noteq> Inl ValueError"
  by code_simp

subsection \<open>The quantity indexer\<close>

lemma dict_items_Some: "dict_items (map Some xs) = xs"
  by (induction xs) (simp_all add: dict_items_def map_filter_simps)

lemma dict_len_Some: "dict_len (map Some xs) = length xs"
  by (simp add: dict_len_def dict_items_Some)

lemma dict_get_Some:
  assumes "k \<notin> fst ` set done"
  shows "dict_get (map Some (done @ (k, v) # rest)) k = Some v"
proof -
  have "map_of done k = None"
    using assms by (simp add: map_of_eq_None_iff)
  then show ?thesis
    by (simp add: dict_get_def dict_items_Some map_add_def del: map_append)
qed

lemma dict_set_Some:
  fixes k :: "'a" and v v' :: "'b"
  assumes "distinct (map fst (done @ (k, v) # rest))"
  shows "dict_set k v' (map Some (done @ (k, v) # rest)) = map Some (done @ (k, v') # rest)"
proof -
  let ?f = "\<lambda>s. case s of None \<Rightarrow> None
                     | Some (k', w) \<Rightarrow> if k' = k then Some (k, v') else Some (k', w)"
  have a: "k \<notin> fst ` set done" and b: "k \<notin> fst ` set rest"
    using assms by auto
  have 1: "map ?f (map Some xs) = map Some xs" if "k \<notin> fst ` set xs" for xs :: "('a \<times> 'b) list"
    using that by (induction xs) auto
  have "map ?f (map Some (done @ (k, v) # rest))
        = map ?f (map Some done) @ ?f (Some (k, v)) # map ?f (map Some rest)"
    by simp
  also have "\<dots> = map Some done @ Some (k, v') # map Some rest"
    by (simp only: 1 [OF a] 1 [OF b]) simp
  also have "\<dots> = map Some (done @ (k, v') # rest)"
    by simp
  finally have m: "map ?f (map Some (done @ (k, v) # rest)) = map Some (done @ (k, v') # rest)" .
  have "k \<in> fst ` set (dict_items (map Some (done @ (k, v) # rest)))"
    by (simp add: dict_items_Some del: map_append)
  then show ?thesis
    unfolding dict_set_def using m by (simp only: if_True)
qed

lemma first_live_Some: "first_live i (Some x # slots) = Some (i, x)"
  by simp

lemma next_entry_Some: "next_entry (length done) (map Some (done @ x # rest)) = Some (length done, x)"
  by (simp add: next_entry_def)

lemma next_entry_end: "length slots \<le> pos \<Longrightarrow> next_entry pos slots = None"
  by (simp add: next_entry_def)

lemma reassign_step_literal:
  assumes "literal_key is_da data k"
  shows "reassign_step reg q is_da k data slots
         = \<lparr>result = convert_entry q data k slots, array = data, warned = [], writes = []\<rparr>"
  using assms unfolding literal_key_def reassign_step_def by (simp only: if_False)

lemma reassign_loop_error:
  "reassign_loop reg q is_da used len pos
     \<lparr>result = Inl e, array = a, warned = ws, writes = wr\<rparr>
   = \<lparr>result = Inl e, array = a, warned = ws, writes = wr\<rparr>"
  by (cases len) simp_all

text \<open>
  The loop on a run of kept keys: it stops at the first error, and otherwise goes on
  behind the run with the values of the run translated.
\<close>

lemma reassign_loop_kept:
  assumes "distinct (map fst (done @ lits @ rest))"
    and "\<forall>k\<in>fst ` set lits. literal_key is_da data k"
    and "used = length (done @ lits @ rest)"
  shows "reassign_loop reg q is_da used (length lits + n) (length done)
           \<lparr>result = Inr (map Some (done @ lits @ rest)), array = data, warned = [], writes = []\<rparr>
         = (case translate_all q data lits of
              Inl e \<Rightarrow> \<lparr>result = Inl e, array = data, warned = [], writes = []\<rparr>
            | Inr lits' \<Rightarrow>
                reassign_loop reg q is_da used n (length (done @ lits'))
                  \<lparr>result = Inr (map Some (done @ lits' @ rest)), array = data,
                   warned = [], writes = []\<rparr>)"
  using assms
proof (induction lits arbitrary: "done")
  case Nil
  show ?case by simp
next
  case (Cons kv lits)
  obtain k v where kv: "kv = (k, v)" by (cases kv)
  let ?slots = "map Some (done @ (k, v) # lits @ rest)"
  have lit: "literal_key is_da data k" using Cons.prems(2) kv by simp
  have nin: "k \<notin> fst ` set done" using Cons.prems(1) kv by auto
  have get: "dict_get ?slots k = Some v" by (rule dict_get_Some [OF nin])
  have nxt: "next_entry (length done) ?slots = Some (length done, (k, v))"
    by (rule next_entry_Some)
  have len: "dict_len ?slots = used"
    using Cons.prems(3) kv by (simp add: dict_len_Some del: map_append)
  have step: "reassign_loop reg q is_da used (length (kv # lits) + n) (length done)
                \<lparr>result = Inr ?slots, array = data, warned = [], writes = []\<rparr>
            = reassign_loop reg q is_da used (length lits + n) (Suc (length done))
                \<lparr>result = convert_entry q data k ?slots, array = data, warned = [], writes = []\<rparr>"
    by (simp add: len nxt reassign_step_literal [OF lit] del: map_append)
  show ?case
  proof (cases "coord_units q data k")
    case (Inl e)
    then have "convert_entry q data k ?slots = Inl e"
      by (simp add: convert_entry_def get del: map_append)
    then show ?thesis
      unfolding kv using step [unfolded kv] Inl by (simp add: reassign_loop_error del: map_append)
  next
    case (Inr unit)
    show ?thesis
    proof (cases "convert_indexer q unit v")
      case (Inl e)
      then have "convert_entry q data k ?slots = Inl e"
        using Inr by (simp add: convert_entry_def get del: map_append)
      then show ?thesis
        unfolding kv using step [unfolded kv] Inl Inr
        by (simp add: reassign_loop_error del: map_append)
    next
      case ci: (Inr v')
      have d: "distinct (map fst (done @ (k, v) # lits @ rest))" using Cons.prems(1) kv by simp
      have ce: "convert_entry q data k ?slots = Inr (map Some ((done @ [(k, v')]) @ lits @ rest))"
        using Inr ci by (simp add: convert_entry_def get dict_set_Some [OF d] del: map_append)
      have d': "distinct (map fst ((done @ [(k, v')]) @ lits @ rest))" using d by simp
      have l': "\<forall>k\<in>fst ` set lits. literal_key is_da data k" using Cons.prems(2) by simp
      have u': "used = length ((done @ [(k, v')]) @ lits @ rest)" using Cons.prems(3) by simp
      note IH = Cons.IH [OF d' l' u']
      show ?thesis
        unfolding kv using step [unfolded kv] ce IH Inr ci
        by (cases "translate_all q data lits") (simp_all del: map_append)
    qed
  qed
qed

lemma translate_all_length:
  "translate_all q data indexers = Inr out \<Longrightarrow> length out = length indexers"
  by (induction indexers arbitrary: out) (auto split: sum.splits)

lemma reassign_literal:
  assumes "distinct (map fst indexers)"
    and "\<forall>k\<in>fst ` set indexers. literal_key is_da data k"
  shows "reassign_quantity_indexer reg q is_da data indexers
         = \<lparr>result = translate_all q data indexers, array = data, warned = [], writes = []\<rparr>"
proof -
  note kept = reassign_loop_kept [where ?done = "[]" and lits = indexers and rest = "[]" and n = 0
        and used = "length indexers" and is_da = is_da and data = data and reg = reg and q = q]
  show ?thesis
  proof (cases "translate_all q data indexers")
    case (Inl e)
    with kept assms show ?thesis
      by (simp add: reassign_quantity_indexer_def)
  next
    case (Inr out)
    with kept assms have "reassign_loop reg q is_da (length indexers) (length indexers) 0
           \<lparr>result = Inr (map Some indexers), array = data, warned = [], writes = []\<rparr>
         = reassign_loop reg q is_da (length indexers) 0 (length out)
                  \<lparr>result = Inr (map Some out), array = data, warned = [], writes = []\<rparr>"
      by simp
    then show ?thesis
      using Inr translate_all_length [OF Inr]
      by (simp add: reassign_quantity_indexer_def dict_items_Some dict_len_Some next_entry_end)
  qed
qed

lemma dict_len_live: "dict_len slots = live slots"
  unfolding dict_len_def dict_items_def live_def
  by (induction slots) (auto simp: map_filter_simps split: option.splits)

lemma live_append: "live (xs @ ys) = live xs + live ys"
  by (simp add: live_def)

lemma live_take_drop: "live slots = live (take pos slots) + live (drop pos slots)"
  using live_append [of "take pos slots" "drop pos slots"] by simp

lemma first_live_None: "first_live i slots = None \<longleftrightarrow> live slots = 0"
  by (induction i slots rule: first_live.induct) (simp_all add: live_def)

lemma first_live_Some_iff:
  "first_live i slots = Some (j, x) \<Longrightarrow>
     i \<le> j \<and> j - i < length slots \<and> slots ! (j - i) = Some x \<and> live (take (j - i) slots) = 0"
proof (induction i slots rule: first_live.induct)
  case (1 i)
  then show ?case by simp
next
  case (2 i slots)
  then have "Suc i \<le> j \<and> j - Suc i < length slots \<and> slots ! (j - Suc i) = Some x
             \<and> live (take (j - Suc i) slots) = 0"
    by simp
  moreover from this have "j - i = Suc (j - Suc i)" by arith
  ultimately show ?case by (simp add: live_def)
next
  case (3 i x' slots)
  then show ?case by (simp add: live_def)
qed

lemma next_entry_found:
  assumes "next_entry pos slots = Some (j, x)"
  shows "pos \<le> j \<and> j < length slots \<and> slots ! j = Some x
       \<and> live (take (Suc j) slots) = Suc (live (take pos slots))"
proof -
  from assms have f: "first_live pos (drop pos slots) = Some (j, x)"
    by (simp add: next_entry_def)
  note F = first_live_Some_iff [OF f]
  from F have 1: "pos \<le> j" by simp
  from F have 2: "j < length slots" by auto
  from F 1 2 have 3: "slots ! j = Some x" by (simp add: nth_drop)
  have "take (Suc j) slots = take pos slots @ take (j - pos) (drop pos slots) @ [slots ! j]"
    using 1 2 by (simp add: take_Suc_conv_app_nth take_add [symmetric] del: append_assoc)
  then have "live (take (Suc j) slots)
             = live (take pos slots) + live (take (j - pos) (drop pos slots)) + live [slots ! j]"
    by (simp add: live_append)
  with F 3 show ?thesis using 1 2 by (simp add: live_def)
qed

lemma next_entry_exists:
  assumes "live (take pos slots) < live slots"
  shows "\<exists>j x. next_entry pos slots = Some (j, x)"
proof -
  have "live (drop pos slots) \<noteq> 0"
    using assms live_take_drop [of slots pos] by simp
  then have "first_live pos (drop pos slots) \<noteq> None"
    by (simp add: first_live_None)
  then show ?thesis
    by (cases "first_live pos (drop pos slots)") (auto simp: next_entry_def)
qed

lemma shrinks_refl: "shrinks slots slots"
  by (simp add: shrinks_def)

lemma shrinks_trans: "shrinks a b \<Longrightarrow> shrinks b c \<Longrightarrow> shrinks a c"
  by (auto simp: shrinks_def)

lemma shrinks_live:
  assumes "shrinks slots slots'" and "j \<le> length slots"
  shows "live (take j slots') \<le> live (take j slots)"
  using assms(2)
proof (induction j)
  case 0
  show ?case by (simp add: live_def)
next
  case (Suc j)
  then have j: "j < length slots" "j < length slots'"
    using assms(1) by (auto simp: shrinks_def)
  have "slots' ! j \<noteq> None \<longrightarrow> slots ! j \<noteq> None"
    using assms(1) j by (simp add: shrinks_def)
  moreover have "live (take j slots') \<le> live (take j slots)"
    using Suc by simp
  ultimately show ?case
    using j by (auto simp: take_Suc_conv_app_nth live_append live_def)
qed

lemma shrinks_dict_set: "shrinks slots (dict_set k v slots)"
  by (auto simp: shrinks_def dict_set_def nth_append split: option.splits)

lemma shrinks_dict_del: "shrinks slots (dict_del k slots)"
  by (auto simp: shrinks_def dict_del_def split: option.splits)

lemma shrinks_convert_entry:
  assumes "convert_entry q data k slots = Inr slots'"
  shows "shrinks slots slots'"
  using assms
  by (auto simp: convert_entry_def shrinks_dict_set split: option.splits sum.splits)

lemma shrinks_reassign_step:
  assumes "result (reassign_step reg q is_da k data slots) = Inr slots'"
  shows "shrinks slots slots'"
proof (cases "is_da \<and> k \<notin> set (da_dims data) \<and> k \<in> set (map fst readable_to_cf_axes)")
  case False
  then have "convert_entry q data k slots = Inr slots'"
    using assms unfolding reassign_step_def by (simp only: if_False) simp
  then show ?thesis by (rule shrinks_convert_entry)
next
  case True
  let ?r = "get_axis reg data k"
  from assms True obtain i v where
    c: "convert_entry q (array ?r) (name (coords (array ?r) ! i))
          (dict_del k (dict_set (name (coords (array ?r) ! i)) v slots)) = Inr slots'"
    unfolding reassign_step_def
    by (simp only: if_True Let_def) (auto split: sum.splits option.splits)
  have "shrinks slots (dict_del k (dict_set (name (coords (array ?r) ! i)) v slots))"
    using shrinks_trans [OF shrinks_dict_set shrinks_dict_del] .
  from shrinks_trans [OF this shrinks_convert_entry [OF c]] show ?thesis .
qed

lemma reassign_loop_stopped:
  "result st = Inl e \<Longrightarrow> reassign_loop reg q is_da used len pos st = st"
  by (cases len) simp_all

lemma live_take_le: "live (take j slots) \<le> j"
  unfolding live_def
  by (rule order_trans [OF length_filter_le]) simp

text \<open>
  Once fewer entries lie before the position of the iterator than it has yielded keys,
  the loop cannot end normally.
\<close>

lemma reassign_loop_overfull:
  assumes "result st = Inr slots"
    and "dict_len slots \<noteq> used \<or> live (take pos slots) + len < used"
  shows "\<exists>e. result (reassign_loop reg q is_da used len pos st) = Inl e"
  using assms
proof (induction len arbitrary: pos st slots)
  case 0
  show ?case
  proof (cases "dict_len slots = used")
    case False
    with 0 show ?thesis by simp
  next
    case True
    with 0 have "live (take pos slots) < live slots" by (simp add: dict_len_live)
    from next_entry_exists [OF this] obtain j x where "next_entry pos slots = Some (j, x)" by blast
    with 0 True show ?thesis by simp
  qed
next
  case (Suc len)
  show ?case
  proof (cases "dict_len slots = used")
    case False
    with Suc.prems show ?thesis by simp
  next
    case True
    with Suc.prems have lt: "live (take pos slots) + Suc len < used"
      and "live (take pos slots) < live slots" by (simp_all add: dict_len_live)
    from next_entry_exists [OF this(2)] obtain j x where nx: "next_entry pos slots = Some (j, x)"
      by blast
    note F = next_entry_found [OF nx]
    let ?r = "reassign_step reg q is_da (fst x) (array st) slots"
    let ?st = "\<lparr>result = result ?r, array = array ?r,
                warned = warned st @ warned ?r, writes = writes st @ writes ?r\<rparr>"
    have step: "reassign_loop reg q is_da used (Suc len) pos st
                = reassign_loop reg q is_da used len (Suc j) ?st"
      using Suc.prems(1) True nx by (simp add: Let_def)
    show ?thesis
    proof (cases "result ?r")
      case (Inl e)
      then have s: "result ?st = Inl e" by simp
      have "reassign_loop reg q is_da used len (Suc j) ?st = ?st"
        by (rule reassign_loop_stopped [OF s])
      then have "result (reassign_loop reg q is_da used (Suc len) pos st) = Inl e"
        by (simp only: step s)
      then show ?thesis by blast
    next
      case (Inr slots')
      from shrinks_reassign_step [OF Inr] have "shrinks slots slots'" .
      from shrinks_live [OF this, of "Suc j"] F
      have "live (take (Suc j) slots') \<le> Suc (live (take pos slots))" by simp
      with lt have "live (take (Suc j) slots') + len < used" by simp
      moreover have "result ?st = Inr slots'" using Inr by simp
      ultimately have "\<exists>e. result (reassign_loop reg q is_da used len (Suc j) ?st) = Inl e"
        using Suc.IH by blast
      then show ?thesis by (simp only: step)
    qed
  qed
qed

lemma dict_set_nth_key:
  assumes "p < length slots" and "slots ! p = Some (k, v)"
  shows "p < length (dict_set k' v' slots) \<and> (\<exists>w. dict_set k' v' slots ! p = Some (k, w))"
  using assms by (auto simp: dict_set_def nth_append)

lemma dict_set_nth_None:
  assumes "p < length slots" and "slots ! p = None"
  shows "p < length (dict_set k' v' slots) \<and> dict_set k' v' slots ! p = None"
  using assms by (auto simp: dict_set_def nth_append)

lemma dict_del_nth_key:
  assumes "p < length slots" and "slots ! p = Some (k, v)"
  shows "p < length (dict_del k slots) \<and> dict_del k slots ! p = None"
  using assms by (simp add: dict_del_def)

lemma convert_entry_None:
  assumes "convert_entry q data k slots = Inr slots'" and "p < length slots" and "slots ! p = None"
  shows "p < length slots' \<and> slots' ! p = None"
proof -
  from assms(1) obtain w where "slots' = dict_set k w slots"
    by (auto simp: convert_entry_def split: option.splits sum.splits)
  with dict_set_nth_None [OF assms(2,3)] show ?thesis by simp
qed

text \<open>The body on a key that it replaces leaves the entry of that key empty.\<close>

lemma reassign_step_empties:
  assumes "\<not> literal_key is_da data k" and "p < length slots" and "slots ! p = Some (k, v)"
    and "result (reassign_step reg q is_da k data slots) = Inr slots'"
  shows "p < length slots' \<and> slots' ! p = None"
proof -
  let ?r = "get_axis reg data k"
  from assms(1) have t: "is_da \<and> k \<notin> set (da_dims data) \<and> k \<in> set (map fst readable_to_cf_axes)"
    by (simp add: literal_key_def)
  from assms(4) t obtain i v0 where
    c: "convert_entry q (array ?r) (name (coords (array ?r) ! i))
          (dict_del k (dict_set (name (coords (array ?r) ! i)) v0 slots)) = Inr slots'"
    unfolding reassign_step_def
    by (simp only: if_True Let_def) (auto split: sum.splits option.splits)
  from dict_set_nth_key [OF assms(2,3)] obtain w where
    "p < length (dict_set (name (coords (array ?r) ! i)) v0 slots)"
    "dict_set (name (coords (array ?r) ! i)) v0 slots ! p = Some (k, w)"
    by blast
  from dict_del_nth_key [OF this] convert_entry_None [OF c] show ?thesis by blast
qed

text \<open>
  With this dictionary, a mapping that holds a key to be replaced by a coordinate name
  never comes back: the call ends in an error, whatever the registry, the coordinates
  and the values.
\<close>

lemma replaced_key_raises:
  assumes "distinct (map fst indexers)"
    and "k \<in> fst ` set indexers" and "\<not> literal_key is_da data k"
  shows "\<exists>e. result (reassign_quantity_indexer reg q is_da data indexers) = Inl e"
proof -
  from assms(2,3) have "\<exists>kv\<in>set indexers. \<not> literal_key is_da data (fst kv)" by auto
  from split_list_first_prop [OF this] obtain lits kv rest where
    ix: "indexers = lits @ kv # rest" and nl: "\<not> literal_key is_da data (fst kv)"
    and ls: "\<forall>y\<in>set lits. \<not> \<not> literal_key is_da data (fst y)"
    by blast
  obtain k' v where kv: "kv = (k', v)" by (cases kv)
  let ?used = "length indexers"
  let ?init = "\<lparr>result = Inr (map Some indexers), array = data, warned = [], writes = []\<rparr>"
  let ?loop = "reassign_loop reg q is_da ?used ?used 0 ?init"
  have d: "distinct (map fst ([] @ lits @ (k', v) # rest))" using assms(1) ix kv by simp
  have l: "\<forall>k\<in>fst ` set lits. literal_key is_da data k" using ls by auto
  have u: "?used = length ([] @ lits @ (k', v) # rest)" using ix kv by simp
  have n: "?used = length lits + Suc (length rest)" using ix by simp
  note kept = reassign_loop_kept [OF d l u, where n = "Suc (length rest)" and reg = reg and q = q]
  have "\<exists>e. result ?loop = Inl e"
  proof (cases "translate_all q data lits")
    case (Inl e)
    with kept ix kv n show ?thesis by simp
  next
    case (Inr lits')
    let ?p = "length lits'"
    let ?slots = "map Some (lits' @ (k', v) # rest)"
    let ?st = "\<lparr>result = Inr ?slots, array = data, warned = [], writes = []\<rparr>"
    have len': "length lits' = length lits" by (rule translate_all_length [OF Inr])
    have eq: "?loop = reassign_loop reg q is_da ?used (Suc (length rest)) ?p ?st"
      using kept Inr ix kv n by simp
    have sz: "dict_len ?slots = ?used"
      using ix len' by (simp add: dict_len_Some del: map_append)
    have nx: "next_entry ?p ?slots = Some (?p, (k', v))" by (rule next_entry_Some)
    let ?r = "reassign_step reg q is_da k' data ?slots"
    let ?st' = "\<lparr>result = result ?r, array = array ?r, warned = warned ?r, writes = writes ?r\<rparr>"
    have step: "reassign_loop reg q is_da ?used (Suc (length rest)) ?p ?st
                = reassign_loop reg q is_da ?used (length rest) (Suc ?p) ?st'"
      by (simp add: sz nx Let_def del: map_append)
    show ?thesis
    proof (cases "result ?r")
      case (Inl e)
      then have s: "result ?st' = Inl e" by simp
      have "reassign_loop reg q is_da ?used (length rest) (Suc ?p) ?st' = ?st'"
        by (rule reassign_loop_stopped [OF s])
      then have "result ?loop = Inl e"
        by (simp only: eq step s)
      then show ?thesis by blast
    next
      case r: (Inr slots')
      have "?p < length ?slots" and "?slots ! ?p = Some (k', v)"
        by (simp_all add: nth_append)
      from reassign_step_empties [OF _ this r] nl kv
      have e: "?p < length slots'" "slots' ! ?p = None" by simp_all
      then have "live (take (Suc ?p) slots') = live (take ?p slots')"
        by (simp add: take_Suc_conv_app_nth live_append) (simp add: live_def)
      with live_take_le [of ?p slots'] have "live (take (Suc ?p) slots') + length rest < ?used"
        using n len' by simp
      moreover have "result ?st' = Inr slots'" using r by simp
      ultimately have "\<exists>e. result (reassign_loop reg q is_da ?used (length rest) (Suc ?p) ?st') = Inl e"
        using reassign_loop_overfull by blast
      then show ?thesis by (simp only: eq step)
    qed
  qed
  then show ?thesis
    by (auto simp: reassign_quantity_indexer_def Let_def)
qed

text \<open>
  What the translation does to one value: a quantity becomes the plain magnitude
  converted to the unit of the coordinate, or the conversion error; a plain value and
  \<open>None\<close> are returned as they are; a slice is translated part by part.
\<close>

lemma convert_indexer_scalar:
  "convert_indexer q unit (Scalar (Quantity m u))
   = (case convert q m u unit of None \<Rightarrow> Inl DimensionalityError | Some m' \<Rightarrow> Inr (Scalar (Plain m')))"
  "convert_indexer q unit (Scalar (Plain m)) = Inr (Scalar (Plain m))"
  "convert_indexer q unit (Scalar PNone) = Inr (Scalar PNone)"
  by (simp_all add: convert_indexer_def to_magnitude_def split: option.splits)

lemma to_magnitude_untagged:
  "to_magnitude q PNone unit = Inr PNone" "to_magnitude q (Plain m) unit = Inr (Plain m)"
  by (simp_all add: to_magnitude_def)

lemma to_magnitude_quantity:
  "convert q m u unit = Some m' \<Longrightarrow> to_magnitude q (Quantity m u) unit = Inr (Plain m')"
  "convert q m u unit = None \<Longrightarrow> to_magnitude q (Quantity m u) unit = Inl DimensionalityError"
  by (simp_all add: to_magnitude_def)

lemma convert_indexer_slice:
  "convert_indexer q unit (Slice start stop step) = Inr v'
   \<longleftrightarrow> (\<exists>a b c. v' = Slice a b c
           \<and> to_magnitude q start unit = Inr a
           \<and> to_magnitude q stop unit = Inr b
           \<and> to_magnitude q step unit = Inr c)"
  by (auto simp: convert_indexer_def split: sum.splits)

lemma convert_indexer_tagged_slice:
  assumes "convert q m1 u1 unit = Some m1'" and "convert q m2 u2 unit = Some m2'"
  shows "convert_indexer q unit (Slice (Quantity m1 u1) (Quantity m2 u2) PNone)
         = Inr (Slice (Plain m1') (Plain m2') PNone)"
  using assms by (simp add: convert_indexer_def to_magnitude_def)

lemmas matcher_defs =
  attributes_match_def criterion_matches_def attrs_get_def axis_criteria_def
  readable_to_cf_axes_def starts_with_def units_match_def units_test_def name_matches_def
  lower_def lower_char_def uppers_def lowers_def digits_def opt_def

lemma isobaric_candidates:
  "coord_lists reg isobaric_field T = []"
  "coord_lists reg isobaric_field Z = [0]"
  "coord_lists reg isobaric_field Y = []"
  "coord_lists reg isobaric_field X = []"
  by (simp_all add: coord_lists_def isobaric_field_def matcher_defs)

lemma isobaric_map:
  "generate_coordinate_map reg isobaric_field
   = (Inr (collapse (coord_lists reg isobaric_field)), [])"
  by (simp add: generate_coordinate_map_def cf_axes_def isobaric_candidates)

lemma isobaric_axis:
  "get_axis reg isobaric_field ''vertical''
   = \<lparr>result = Inr 0, array = isobaric_marked, warned = [], writes = [(0, Z)]\<rparr>"
proof -
  have fi: "first_index (\<lambda>coord_var. metpy_axis coord_var = Some (cf_str Z)) (coords isobaric_field)
            = None"
    by (simp add: isobaric_field_def metpy_axis_def attrs_get_def)
  have ap: "assign_parsed cf_axes (collapse (coord_lists reg isobaric_field)) (coords isobaric_field)
            = (coords isobaric_marked, [(0, Z)])"
    by (simp add: cf_axes_def collapse_def isobaric_candidates)
       (simp add: isobaric_field_def isobaric_marked_def metpy_axis_def attrs_get_def assigned_def
          set_metpy_axis_def)
  have da: "isobaric_field\<lparr>coords := coords isobaric_marked\<rparr> = isobaric_marked"
    by (simp add: isobaric_field_def isobaric_marked_def)
  have "metpy_axis_search reg isobaric_field Z
        = \<lparr>result = Inr (Some 0), array = isobaric_marked, warned = [], writes = [(0, Z)]\<rparr>"
    unfolding metpy_axis_search_def fi isobaric_map
    by (simp add: ap da) (simp add: collapse_def isobaric_candidates)
  then show ?thesis
    by (simp add: get_axis_def readable_to_cf_axes_def)
qed

lemma isobaric_units: "coord_units q_pressure isobaric_marked ''pressure'' = Inr HPa"
  by (simp add: coord_units_def getitem_def isobaric_marked_def metpy_units_def attrs_get_def
        q_pressure_def)

text \<open>
  The body of the loop on the key \<open>vertical\<close> of the scenario: the value is stored under
  \<open>pressure\<close> in a new entry behind the entry of \<open>vertical\<close>, which is emptied, and is
  translated there.
\<close>

lemma isobaric_step:
  "reassign_step reg q_pressure True ''vertical'' isobaric_field
     [Some (''vertical'', Slice (Quantity 1000 HPa) (Quantity 500 HPa) PNone)]
   = \<lparr>result = Inr [None, Some (''pressure'', Slice (Plain 1000) (Plain 500) PNone)],
      array = isobaric_marked, warned = [], writes = [(0, Z)]\<rparr>"
proof -
  have ci: "convert_indexer q_pressure HPa (Slice (Quantity 1000 HPa) (Quantity 500 HPa) PNone)
            = Inr (Slice (Plain 1000) (Plain 500) PNone)"
    by (simp add: convert_indexer_def to_magnitude_def q_pressure_def)
  show ?thesis
    by (simp add: reassign_step_def isobaric_axis readable_to_cf_axes_def Let_def)
       (simp add: isobaric_field_def isobaric_marked_def dict_get_def dict_set_def dict_del_def
          dict_items_def map_filter_simps convert_entry_def
          isobaric_units [unfolded isobaric_marked_def] ci)
qed

text \<open>
  Claim C3 at the failing input: the array with the coordinate \<open>pressure\<close> declared in
  \<open>hPa\<close> and the mapping from \<open>vertical\<close> to the slice from 1000 hPa to 500 hPa. The
  body of the loop stores the value under \<open>pressure\<close> and deletes the key \<open>vertical\<close>
  of the dictionary that the loop iterates over; when the iterator is asked for the next
  key it finds the entry of \<open>pressure\<close> after it has yielded its one key, and
  \<open>_reassign_quantity_indexer\<close> ends with \<open>RuntimeError\<close> instead of returning the mapping
  from \<open>pressure\<close> to the slice from 1000 to 500. This holds for every registry of
  dimensionalities; the lookup of the vertical axis has marked the coordinate by then.
\<close>

theorem vertical_slice_raises:
  "reassign_quantity_indexer reg q_pressure True isobaric_field
     [(''vertical'', Slice (Quantity 1000 HPa) (Quantity 500 HPa) PNone)]
   = \<lparr>result = Inl (RuntimeError ''dictionary keys changed during iteration''),
      array = isobaric_marked, warned = [], writes = [(0, Z)]\<rparr>"
proof -
  let ?sl = "Slice (Quantity 1000 HPa) (Quantity 500 HPa) PNone :: (int, unit_name) indexer"
  let ?pl = "Slice (Plain 1000) (Plain 500) PNone :: (int, unit_name) indexer"
  have nx0: "next_entry 0 [Some (''vertical'', ?sl)] = Some (0, (''vertical'', ?sl))"
    by (simp add: next_entry_def)
  have nx1: "next_entry (Suc 0) [None, Some (''pressure'', ?pl)] = Some (Suc 0, (''pressure'', ?pl))"
    by (simp add: next_entry_def)
  have "reassign_loop reg q_pressure True (Suc 0) (Suc 0) 0
          \<lparr>result = Inr [Some (''vertical'', ?sl)], array = isobaric_field, warned = [], writes = []\<rparr>
        = \<lparr>result = Inl (RuntimeError ''dictionary keys changed during iteration''),
           array = isobaric_marked, warned = [], writes = [(0, Z)]\<rparr>"
    by (simp add: dict_len_def dict_items_def map_filter_simps nx0 nx1 isobaric_step)
  then show ?thesis
    by (simp add: reassign_quantity_indexer_def)
qed

text \<open>Under the name of the coordinate itself the same slice is translated.\<close>

lemma pressure_slice_translates:
  "reassign_quantity_indexer reg q_pressure True isobaric_field
     [(''pressure'', Slice (Quantity 1000 HPa) (Quantity 500 HPa) PNone)]
   = \<lparr>result = Inr [(''pressure'', Slice (Plain 1000) (Plain 500) PNone)],
      array = isobaric_field, warned = [], writes = []\<rparr>"
proof -
  have l: "\<forall>k\<in>fst ` set [(''pressure'', Slice (Quantity 1000 HPa) (Quantity 500 HPa) PNone
                                         :: (int, unit_name) indexer)].
             literal_key True isobaric_field k"
    by (simp add: literal_key_def isobaric_field_def)
  have u: "coord_units q_pressure isobaric_field ''pressure'' = Inr HPa"
    by (simp add: coord_units_def getitem_def isobaric_field_def metpy_units_def attrs_get_def
          q_pressure_def)
  have t: "translate_all q_pressure isobaric_field
             [(''pressure'', Slice (Quantity 1000 HPa) (Quantity 500 HPa) PNone)]
           = Inr [(''pressure'', Slice (Plain 1000) (Plain 500) PNone)]"
    by (simp add: u) (simp add: convert_indexer_def to_magnitude_def q_pressure_def)
  have "reassign_quantity_indexer reg q_pressure True isobaric_field
          [(''pressure'', Slice (Quantity 1000 HPa) (Quantity 500 HPa) PNone)]
        = \<lparr>result = translate_all q_pressure isobaric_field
                      [(''pressure'', Slice (Quantity 1000 HPa) (Quantity 500 HPa) PNone)],
           array = isobaric_field, warned = [], writes = []\<rparr>"
    by (rule reassign_literal [OF _ l]) simp
  then show ?thesis by (simp only: t)
qed

text \<open>A scalar in \<open>hPa\<close> against a coordinate declared in \<open>Pa\<close> is converted.\<close>

lemma pressure_scalar_converted:
  "reassign_quantity_indexer reg q_pressure True station_pa
     [(''pressure'', Scalar (Quantity 850 HPa))]
   = \<lparr>result = Inr [(''pressure'', Scalar (Plain 85000))],
      array = station_pa, warned = [], writes = []\<rparr>"
proof -
  have l: "\<forall>k\<in>fst ` set [(''pressure'', Scalar (Quantity 850 HPa) :: (int, unit_name) indexer)].
             literal_key True station_pa k"
    by (simp add: literal_key_def station_pa_def)
  have u: "coord_units q_pressure station_pa ''pressure'' = Inr Pascal"
    by (simp add: coord_units_def getitem_def station_pa_def metpy_units_def attrs_get_def
          q_pressure_def)
  have t: "translate_all q_pressure station_pa [(''pressure'', Scalar (Quantity 850 HPa))]
           = Inr [(''pressure'', Scalar (Plain 85000))]"
    by (simp add: u) (simp add: convert_indexer_def to_magnitude_def q_pressure_def)
  have "reassign_quantity_indexer reg q_pressure True station_pa
          [(''pressure'', Scalar (Quantity 850 HPa))]
        = \<lparr>result = translate_all q_pressure station_pa
                      [(''pressure'', Scalar (Quantity 850 HPa))],
           array = station_pa, warned = [], writes = []\<rparr>"
    by (rule reassign_literal [OF _ l]) simp
  then show ?thesis by (simp only: t)
qed

end
